theory Spec2Isabelle
  imports Complex_Main
begin

section \<open>Numbers and coordinates\<close>

text \<open>
  The program computes on JavaScript numbers. Finite values are modelled as
  \<^typ>\<open>real\<close> with exact arithmetic (rounding is abstracted away); the three
  places where the source divides by a value that can be zero produce a
  \<open>jsnum\<close>, which adds the IEEE special values that such a division yields.
  A coordinate is the two-element array \<open>[lat, lon]\<close>.
\<close>

type_synonym coord = "real \<times> real"

datatype jsnum = Fin real | PosInf | NegInf | NaN

text \<open>\<open>a / b\<close> where the divisor is never negative zero (it is a \<open>Math.sqrt\<close>
  result, a product of one with a positive constant, or an array length).\<close>

definition js_div :: "real \<Rightarrow> real \<Rightarrow> jsnum" where
  "js_div a b =
     (if b \<noteq> 0 then Fin (a / b)
      else if a > 0 then PosInf
      else if a < 0 then NegInf
      else NaN)"

text \<open>\<open>x > c\<close> and \<open>x < c\<close> for a finite constant \<open>c\<close>; every comparison with
  NaN is false.\<close>

fun js_gt :: "jsnum \<Rightarrow> real \<Rightarrow> bool" where
  "js_gt (Fin r) c = (r > c)"
| "js_gt PosInf c = True"
| "js_gt NegInf c = False"
| "js_gt NaN c = False"

fun js_lt :: "jsnum \<Rightarrow> real \<Rightarrow> bool" where
  "js_lt (Fin r) c = (r < c)"
| "js_lt PosInf c = False"
| "js_lt NegInf c = True"
| "js_lt NaN c = False"

text \<open>\<open>Number.MAX_VALUE\<close>, the largest finite double.\<close>

definition MAX_VALUE :: real where
  "MAX_VALUE = (2 ^ 53 - 1) * 2 ^ 971"

text \<open>\<open>Math.round\<close> on a non-negative argument, used as an array index.\<close>

definition Math_round :: "real \<Rightarrow> nat" where
  "Math_round x = nat \<lfloor>x + 1 / 2\<rfloor>"

text \<open>\<open>xs.slice(a, b)\<close> for non-negative \<open>a\<close> and \<open>b\<close>.\<close>

definition slice :: "'a list \<Rightarrow> nat \<Rightarrow> nat \<Rightarrow> 'a list" where
  "slice xs a b = take (b - a) (drop a xs)"

section \<open>Geo primitives\<close>

definition calculateDistance :: "coord \<Rightarrow> coord \<Rightarrow> real" where
  "calculateDistance coord1 coord2 =
     sqrt ((fst coord1 - fst coord2) ^ 2 + (snd coord1 - snd coord2) ^ 2)"

text \<open>The loop of \<open>calculateTotalDistance\<close>: \<open>tot\<close> is the accumulator \<open>total\<close>, the
  list is what is left of \<open>coordinates\<close> from index \<open>i - 1\<close> on.\<close>

fun totalFrom :: "real \<Rightarrow> coord list \<Rightarrow> real" where
  "totalFrom tot (a # b # rest) = totalFrom (tot + calculateDistance a b) (b # rest)"
| "totalFrom tot [a] = tot"
| "totalFrom tot [] = tot"

definition calculateTotalDistance :: "coord list \<Rightarrow> real" where
  "calculateTotalDistance coordinates = totalFrom 0 coordinates"

section \<open>Path sampler\<close>

text \<open>
  \<open>intelligentSample(coordinates, targetPoints)\<close>. The loop runs for
  \<open>1 \<le> i < targetPoints - 1\<close>; for \<open>targetPoints < 2\<close> it does not run at all,
  which is also what the truncating subtraction on \<^typ>\<open>nat\<close> gives, and
  \<open>step\<close> is then not used. Lemma \<open>intelligentSample_index\<close> below shows that
  the index read by the loop is always inside the array.
\<close>

definition intelligentSample :: "'a list \<Rightarrow> nat \<Rightarrow> 'a list" where
  "intelligentSample coordinates targetPoints =
     (if length coordinates \<le> targetPoints then coordinates
      else
        let step = (real (length coordinates) - 1) / (real targetPoints - 1)
        in [coordinates ! 0]
           @ map (\<lambda>i. coordinates ! Math_round (real i * step)) [1..<targetPoints - 1]
           @ [coordinates ! (length coordinates - 1)])"

section \<open>Interpolation fallback\<close>

definition steps :: nat where
  "steps = 10"

definition createInterpolatedPath :: "coord \<Rightarrow> coord \<Rightarrow> coord list" where
  "createInterpolatedPath startCoords endCoords =
     [startCoords]
     @ map (\<lambda>i. let ratio = real i / real steps;
                     lat = fst startCoords + (fst endCoords - fst startCoords) * ratio;
                     lon = snd startCoords + (snd endCoords - snd startCoords) * ratio
                 in (lat, lon)) [1..<steps]
     @ [endCoords]"

section \<open>The two variants\<close>

text \<open>
  The repository holds two variants of the same script, \<open>src/scripts/main.js\<close>
  (\<open>MainJs\<close>) and \<open>src/unnamed/part_000\<close> (\<open>Part000\<close>). Their functions have
  the same names; where the bodies differ, the model takes the variant as its first
  argument. A thrown exception is a value \<open>Inl TypeError\<close>.
\<close>

datatype variant = Part000 | MainJs

datatype js_error = TypeError

section \<open>Nearest-point index\<close>

definition searchStep :: "coord list \<Rightarrow> nat" where
  "searchStep coordinates = max 1 (length coordinates div 1000)"

text \<open>First pass of \<open>findClosestPointIndex\<close>: \<open>for (i = 0; i < length; i += searchStep)\<close>.
  The state is \<open>(closestIndex, minDistance)\<close>.\<close>

function firstPass :: "coord list \<Rightarrow> coord \<Rightarrow> nat \<Rightarrow> nat \<times> real \<Rightarrow> nat \<times> real" where
  "firstPass coordinates targetCoord i (closestIndex, minDistance) =
     (if i < length coordinates then
        let coord = coordinates ! i;
            distance = calculateDistance coord targetCoord
        in firstPass coordinates targetCoord (i + searchStep coordinates)
             (if distance < minDistance then (i, distance) else (closestIndex, minDistance))
      else (closestIndex, minDistance))"
  by pat_completeness auto
termination
  by (relation "measure (\<lambda>(coordinates, targetCoord, i, st). length coordinates - i)")
     (auto simp: searchStep_def)

text \<open>Second pass: \<open>for (i = searchStart; i < searchEnd; i++)\<close>.\<close>

function secondPass :: "coord list \<Rightarrow> coord \<Rightarrow> nat \<Rightarrow> nat \<Rightarrow> nat \<times> real \<Rightarrow> nat \<times> real" where
  "secondPass coordinates targetCoord searchEnd i (closestIndex, minDistance) =
     (if i < searchEnd then
        let coord = coordinates ! i;
            distance = calculateDistance coord targetCoord
        in secondPass coordinates targetCoord searchEnd (Suc i)
             (if distance < minDistance then (i, distance) else (closestIndex, minDistance))
      else (closestIndex, minDistance))"
  by pat_completeness auto
termination
  by (relation "measure (\<lambda>(coordinates, targetCoord, searchEnd, i, st). searchEnd - i)") auto

definition findClosestPointIndex :: "coord list \<Rightarrow> coord \<Rightarrow> nat" where
  "findClosestPointIndex coordinates targetCoord =
     (let (closestIndex, minDistance) = firstPass coordinates targetCoord 0 (0, MAX_VALUE);
          searchRadius = max 50 (searchStep coordinates * 2);
          searchStart = nat (max 0 (int closestIndex - int searchRadius));
          searchEnd = min (length coordinates) (closestIndex + searchRadius)
      in fst (secondPass coordinates targetCoord searchEnd searchStart (closestIndex, MAX_VALUE)))"

text \<open>\<open>findNearbyIndices\<close>: the entries are the objects \<open>{index, distance}\<close>;
  \<open>Array.prototype.sort\<close> is stable, as is \<^const>\<open>sort_key\<close>.\<close>

definition findNearbyIndices :: "coord list \<Rightarrow> coord \<Rightarrow> real \<Rightarrow> (nat \<times> real) list" where
  "findNearbyIndices gpxCoords targetCoord maxDistance =
     sort_key snd
       (filter (\<lambda>(index, distance). distance \<le> maxDistance)
          (map (\<lambda>i. (i, calculateDistance (gpxCoords ! i) targetCoord)) [0..<length gpxCoords]))"

section \<open>Segment matcher\<close>

text \<open>The first statements of \<open>extractGpsTrackBetweenPoints\<close>: order the two
  indices and slice the track between them, both ends included.\<close>

definition rawGpsSegment :: "coord list \<Rightarrow> nat \<Rightarrow> nat \<Rightarrow> coord list" where
  "rawGpsSegment gpxCoords startIdx endIdx =
     (let (startIdx', endIdx') =
            (if startIdx > endIdx then (endIdx, startIdx) else (startIdx, endIdx))
      in slice gpxCoords startIdx' (endIdx' + 1))"

text \<open>
  \<open>finalPath\<close> as it stands when the winding ratio is computed: sampled down to
  200 points when the raw segment has more than 300, and in \<open>Part000\<close> with its
  two end points overwritten by the targets (\<open>MainJs\<close> only logs them). It is
  only computed for a raw segment of at least two points, so both writes are in range.
\<close>

definition finalPath :: "variant \<Rightarrow> coord list \<Rightarrow> coord \<Rightarrow> coord \<Rightarrow> coord list" where
  "finalPath v rawSegment targetStart targetEnd =
     (let sampled = (if length rawSegment > 300 then intelligentSample rawSegment 200
                     else rawSegment)
      in case v of
           Part000 \<Rightarrow> (sampled[0 := targetStart])[length sampled - 1 := targetEnd]
         | MainJs \<Rightarrow> sampled)"

definition windingRatio :: "coord list \<Rightarrow> coord \<Rightarrow> coord \<Rightarrow> jsnum" where
  "windingRatio path targetStart targetEnd =
     (let straightDistance = calculateDistance targetStart targetEnd;
          trailDistance = calculateTotalDistance path
      in js_div trailDistance straightDistance)"

definition extractGpsTrackBetweenPoints ::
  "variant \<Rightarrow> coord list \<Rightarrow> nat \<Rightarrow> nat \<Rightarrow> coord \<Rightarrow> coord \<Rightarrow> coord list option" where
  "extractGpsTrackBetweenPoints v gpxCoords startIdx endIdx targetStart targetEnd =
     (let rawSegment = rawGpsSegment gpxCoords startIdx endIdx
      in if length rawSegment < 2 then None
         else
           let path = finalPath v rawSegment targetStart targetEnd;
               ratio = windingRatio path targetStart targetEnd
           in if js_gt ratio (1 / 2) \<and> js_lt ratio 10 then Some path else None)"

text \<open>The GPX data as the parser library delivers it: a track has an optional
  name, its points and its distance data (total and cumulative metres).\<close>

record distance_info =
  distance_total :: real
  distance_cumul :: "real list option"

record gpx_track =
  trk_name :: "string option"
  trk_points :: "coord list"
  trk_distance :: "distance_info option"

record gpx_parser =
  tracks :: "gpx_track list"

text \<open>The global variables the matcher and the assembler read.\<close>

record globals =
  trailGpxParser :: "gpx_parser option"
  gpxTrailPoints :: "coord list"

text \<open>\<open>trailGpxParser.tracks[0]\<close>, and a property read on it: a TypeError when the
  parser is null or has no track.\<close>

definition firstTrack :: "globals \<Rightarrow> js_error + gpx_track" where
  "firstTrack g =
     (case trailGpxParser g of
        None \<Rightarrow> Inl TypeError
      | Some parser \<Rightarrow> (case tracks parser of [] \<Rightarrow> Inl TypeError | track # _ \<Rightarrow> Inr track))"

text \<open>The index pairs of the two nested loops of \<open>findSegmentByDistance\<close>, in the
  order the loops visit them (\<open>i < length - 10\<close>, \<open>i + 10 \<le> j < length\<close>).\<close>

definition indexPairs :: "nat \<Rightarrow> (nat \<times> nat) list" where
  "indexPairs n = concat (map (\<lambda>i. map (Pair i) [i + 10..<n]) [0..<n - 10])"

text \<open>
  \<open>findSegmentByDistance(track, startCoords, endCoords)\<close>. Reading
  \<open>track.distance.cumul\<close> throws when the track has no distance data. The first
  index pair whose distance ratio is below 0.5 ends the search.
\<close>

definition findSegmentByDistance ::
  "variant \<Rightarrow> gpx_track \<Rightarrow> coord \<Rightarrow> coord \<Rightarrow> js_error + coord list option" where
  "findSegmentByDistance v track startCoords endCoords =
     (case trk_distance track of
        None \<Rightarrow> Inl TypeError
      | Some d \<Rightarrow>
         (case distance_cumul d of
            None \<Rightarrow> Inr None
          | Some cumulativeDistances \<Rightarrow>
              let points = trk_points track in
              if length cumulativeDistances \<noteq> length points then Inr None
              else
                let targetDistance = calculateDistance startCoords endCoords * 111000;
                    found = List.find
                      (\<lambda>(i, j).
                         let segmentDistance = cumulativeDistances ! j - cumulativeDistances ! i;
                             distanceRatio = js_div \<bar>segmentDistance - targetDistance\<bar> targetDistance
                         in js_lt distanceRatio (1 / 2) \<and> length (slice points i (j + 1)) \<ge> 2)
                      (indexPairs (length points))
                in case found of
                     None \<Rightarrow> Inr None
                   | Some (i, j) \<Rightarrow>
                       let segmentCoords = slice points i (j + 1)
                       in Inr (Some (case v of
                            Part000 \<Rightarrow> (segmentCoords[0 := startCoords])
                                          [length segmentCoords - 1 := endCoords]
                          | MainJs \<Rightarrow> segmentCoords))))"

text \<open>One iteration of the innermost loop body of approach 2; the state is
  \<open>(bestPath, bestScore)\<close>.\<close>

definition combineStep ::
  "variant \<Rightarrow> coord list \<Rightarrow> coord \<Rightarrow> coord \<Rightarrow> coord list option \<times> real
     \<Rightarrow> (nat \<times> real) \<times> (nat \<times> real) \<Rightarrow> coord list option \<times> real" where
  "combineStep v gpxCoords startCoords endCoords st pair =
     (let (bestPath, bestScore) = st; (startPoint, endPoint) = pair in
      if fst startPoint \<noteq> fst endPoint then
        (case extractGpsTrackBetweenPoints v gpxCoords (fst startPoint) (fst endPoint)
                startCoords endCoords of
           None \<Rightarrow> (bestPath, bestScore)
         | Some path \<Rightarrow>
             if length path \<ge> 2 then
               let score = snd startPoint + snd endPoint
               in if score < bestScore then (Some path, score) else (bestPath, bestScore)
             else (bestPath, bestScore))
      else (bestPath, bestScore))"

text \<open>Approach 2 of \<open>findGpxSegmentForCoordinates\<close>: the two nested \<open>for ... of\<close>
  loops over the (at most five) nearby start and end points; the result is \<open>bestPath\<close>.\<close>

definition bestCombination ::
  "variant \<Rightarrow> coord list \<Rightarrow> coord \<Rightarrow> coord \<Rightarrow> real \<Rightarrow> coord list option" where
  "bestCombination v gpxCoords startCoords endCoords maxDistance =
     (let nearbyStartPoints = take 5 (findNearbyIndices gpxCoords startCoords maxDistance);
          nearbyEndPoints = take 5 (findNearbyIndices gpxCoords endCoords maxDistance)
      in if length nearbyStartPoints > 0 \<and> length nearbyEndPoints > 0 then
           fst (foldl (combineStep v gpxCoords startCoords endCoords) (None, MAX_VALUE)
                  (List.product nearbyStartPoints nearbyEndPoints))
         else None)"

text \<open>Approach 3 of \<open>findGpxSegmentForCoordinates\<close>, on the global parser's first track.\<close>

definition distanceApproach ::
  "variant \<Rightarrow> globals \<Rightarrow> coord \<Rightarrow> coord \<Rightarrow> js_error + coord list option" where
  "distanceApproach v g startCoords endCoords =
     (case firstTrack g of
        Inl e \<Rightarrow> Inl e
      | Inr track \<Rightarrow>
         (case trk_distance track of
            None \<Rightarrow> Inr None
          | Some d \<Rightarrow>
             (case distance_cumul d of
                None \<Rightarrow> Inr None
              | Some c \<Rightarrow> findSegmentByDistance v track startCoords endCoords)))"

text \<open>
  \<open>findGpxSegmentForCoordinates(allPoints, startCoords, endCoords, segmentIndex)\<close>;
  \<open>segmentIndex\<close> is not used by the code. On an empty \<open>allPoints\<close> the nearest
  index is 0 and \<open>calculateDistance(gpxCoords[0], ...)\<close> reads an element of
  \<open>undefined\<close>, a TypeError.
\<close>

definition findGpxSegmentForCoordinates ::
  "variant \<Rightarrow> globals \<Rightarrow> coord list \<Rightarrow> coord \<Rightarrow> coord \<Rightarrow> js_error + coord list option" where
  "findGpxSegmentForCoordinates v g allPoints startCoords endCoords =
     (let gpxCoords = allPoints;
          maxDistance = 3;
          bestStartIdx = findClosestPointIndex gpxCoords startCoords;
          bestEndIdx = findClosestPointIndex gpxCoords endCoords
      in if gpxCoords = [] then Inl TypeError
         else
           let startDist = calculateDistance (gpxCoords ! bestStartIdx) startCoords;
               endDist = calculateDistance (gpxCoords ! bestEndIdx) endCoords
           in if startDist \<le> maxDistance \<and> endDist \<le> maxDistance then
                Inr (extractGpsTrackBetweenPoints v gpxCoords bestStartIdx bestEndIdx
                       startCoords endCoords)
              else
                (case bestCombination v gpxCoords startCoords endCoords maxDistance of
                   Some bestPath \<Rightarrow> Inr (Some bestPath)
                 | None \<Rightarrow> distanceApproach v g startCoords endCoords))"

section \<open>Segment assembler\<close>

text \<open>An entry of \<open>route.json\<close> and the segment object built from it.\<close>

record route_segment =
  rd_name :: string
  rd_start_location :: string
  rd_finish_location :: string
  rd_distance :: real
  rd_notes :: string
  start_coords :: coord
  finish_coords :: coord

record elevation_data =
  gain :: nat
  loss :: nat
  minElevation :: nat
  maxElevation :: nat

record segment =
  seg_id :: nat
  seg_name :: string
  seg_start_location :: string
  seg_finish_location :: string
  seg_distance :: real
  seg_notes :: string
  coordinates :: "coord list"
  startCoords :: coord
  endCoords :: coord
  elevation :: elevation_data
  highlights :: string

definition elevationData :: "variant \<Rightarrow> (nat \<times> elevation_data) list" where
  "elevationData v =
     [(1, \<lparr>gain = 1580, loss = 760, minElevation = 5440, maxElevation = 6280\<rparr>),
      (2, \<lparr>gain = 2390, loss = 980, minElevation = 5520, maxElevation = 7040\<rparr>),
      (3, \<lparr>gain = 1980, loss = 1540, minElevation = 6120, maxElevation = 7760\<rparr>),
      (4, \<lparr>gain = 2980, loss = 2240, minElevation = 6520, maxElevation = 8920\<rparr>),
      (5, \<lparr>gain = 2440, loss = 1900, minElevation = 7280, maxElevation = 10040\<rparr>),
      (6, \<lparr>gain = 4200, loss = 3680, minElevation = 8400, maxElevation = 12040\<rparr>),
      (7, \<lparr>gain = 1840, loss = 2420, minElevation = 9200, maxElevation = 11760\<rparr>),
      (8, \<lparr>gain = 3280, loss = 2680, minElevation = 9600, maxElevation = 12600\<rparr>),
      (9, \<lparr>gain = 2180, loss = 2540, minElevation = 9840, maxElevation = 12460\<rparr>),
      (10, \<lparr>gain = 1940, loss = 2100, minElevation = 9600, maxElevation = 11920\<rparr>),
      (11, \<lparr>gain = 3420, loss = 2980, minElevation = 9200, maxElevation = 12600\<rparr>),
      (12, \<lparr>gain = 2680, loss = 3180, minElevation = 8800, maxElevation = 11680\<rparr>),
      (13, \<lparr>gain = 3840, loss = 3240, minElevation = 8400, maxElevation = 12200\<rparr>),
      (14, \<lparr>gain = 2280, loss = 3680, minElevation = 7800, maxElevation = 10840\<rparr>),
      (15, case v of
             Part000 \<Rightarrow> \<lparr>gain = 1680, loss = 1480, minElevation = 8200, maxElevation = 10120\<rparr>
           | MainJs \<Rightarrow> \<lparr>gain = 1680, loss = 2180, minElevation = 8200, maxElevation = 11200\<rparr>)]"

definition getSegmentElevationData :: "variant \<Rightarrow> nat \<Rightarrow> elevation_data" where
  "getSegmentElevationData v segmentId =
     (case map_of (elevationData v) segmentId of
        Some e \<Rightarrow> e
      | None \<Rightarrow> \<lparr>gain = 2000, loss = 1500, minElevation = 8000, maxElevation = 10000\<rparr>)"

text \<open>\<open>getSegmentHighlights\<close> builds a table and returns a constant.\<close>

definition getSegmentHighlights :: "nat \<Rightarrow> string" where
  "getSegmentHighlights segmentId = ''Beautiful Colorado wilderness experience''"

definition buildSegmentObject ::
  "variant \<Rightarrow> route_segment \<Rightarrow> nat \<Rightarrow> coord list \<Rightarrow> coord \<Rightarrow> coord \<Rightarrow> segment" where
  "buildSegmentObject v rd index coords startCoords' endCoords' =
     \<lparr>seg_id = index + 1,
      seg_name = rd_name rd,
      seg_start_location = rd_start_location rd,
      seg_finish_location = rd_finish_location rd,
      seg_distance = rd_distance rd,
      seg_notes = rd_notes rd,
      coordinates = coords,
      startCoords = startCoords',
      endCoords = endCoords',
      elevation = getSegmentElevationData v (index + 1),
      highlights = getSegmentHighlights (index + 1)\<rparr>"

text \<open>The fallback object built in three places of \<open>processSegmentData\<close>: an
  interpolated path between the entry's own coordinates.\<close>

definition interpolatedSegment :: "variant \<Rightarrow> route_segment \<Rightarrow> nat \<Rightarrow> segment" where
  "interpolatedSegment v segmentData index =
     (let startCoords' = start_coords segmentData;
          endCoords' = finish_coords segmentData;
          interpolatedPath = createInterpolatedPath startCoords' endCoords'
      in buildSegmentObject v segmentData index interpolatedPath startCoords' endCoords')"

text \<open>
  What a run of \<open>processSegmentData\<close> leaves behind: the new value of the global
  \<open>coloradoTrailSegments\<close> and, where the code computes them, the counters and the
  coverage it reports (\<open>(gpxMatchCount / segments.length) * 100\<close>, before formatting).
  The branch taken when no GPX data is there returns before any counter exists.
\<close>

record summary =
  gpxMatchCount :: nat
  interpolatedCount :: nat
  coverage :: jsnum

record outcome =
  coloradoTrailSegments :: "segment list"
  report :: "summary option"

definition coveragePercent :: "nat \<Rightarrow> nat \<Rightarrow> jsnum" where
  "coveragePercent matched len =
     (case js_div (real matched) (real len) of
        Fin r \<Rightarrow> Fin (r * 100)
      | PosInf \<Rightarrow> PosInf
      | NegInf \<Rightarrow> NegInf
      | NaN \<Rightarrow> NaN)"

definition finish :: "segment list \<times> nat \<times> nat \<Rightarrow> outcome" where
  "finish st =
     (let (segments, matched, interpolated) = st
      in \<lparr>coloradoTrailSegments = segments,
          report = Some \<lparr>gpxMatchCount = matched, interpolatedCount = interpolated,
                         coverage = coveragePercent matched (length segments)\<rparr>\<rparr>)"

text \<open>The branch of both variants for absent GPX data: \<open>routeData.map(...)\<close>.\<close>

definition interpolateAll :: "variant \<Rightarrow> route_segment list \<Rightarrow> outcome" where
  "interpolateAll v routeData =
     \<lparr>coloradoTrailSegments =
        map (\<lambda>(index, segment). interpolatedSegment v segment index) (enumerate 0 routeData),
      report = None\<rparr>"

subsection \<open>The loop of \<open>part_000\<close>\<close>

text \<open>The \<open>for\<close> loop over \<open>routeData\<close>, from index \<open>i\<close> on; the state is
  \<open>(segments, gpxMatchCount, interpolatedCount)\<close>.\<close>

fun matchLoop ::
  "globals \<Rightarrow> coord list \<Rightarrow> route_segment list \<Rightarrow> nat \<Rightarrow> segment list \<times> nat \<times> nat
     \<Rightarrow> js_error + segment list \<times> nat \<times> nat" where
  "matchLoop g allPoints [] i st = Inr st"
| "matchLoop g allPoints (segmentData # rest) i (segments, matched, interpolated) =
     (let startCoords' = start_coords segmentData;
          endCoords' = finish_coords segmentData
      in case findGpxSegmentForCoordinates Part000 g allPoints startCoords' endCoords' of
           Inl e \<Rightarrow> Inl e
         | Inr segmentPath \<Rightarrow>
             (case segmentPath of
                Some path \<Rightarrow>
                  if length path \<ge> 2 then
                    matchLoop g allPoints rest (Suc i)
                      (segments @ [buildSegmentObject Part000 segmentData i path
                                     (path ! 0) (path ! (length path - 1))],
                       matched + 1, interpolated)
                  else
                    matchLoop g allPoints rest (Suc i)
                      (segments @ [interpolatedSegment Part000 segmentData i],
                       matched, interpolated + 1)
              | None \<Rightarrow>
                  matchLoop g allPoints rest (Suc i)
                    (segments @ [interpolatedSegment Part000 segmentData i],
                     matched, interpolated + 1)))"

subsection \<open>The loop of \<open>main.js\<close>\<close>

definition SEGMENT_ORDER :: "string list" where
  "SEGMENT_ORDER =
     [''01'', ''02'', ''03'', ''04'', ''05'', ''06'', ''07'', ''08'', ''09'', ''10'', ''11'',
      ''CW01'', ''CW02'', ''CW03'', ''CW05'']"

text \<open>\<open>toLowerCase\<close> on the ASCII letters; a string is its sequence of bytes.\<close>

definition toLowerCase :: "string \<Rightarrow> string" where
  "toLowerCase s =
     map (\<lambda>c. let n = (of_char c :: nat) in if 65 \<le> n \<and> n \<le> 90 then char_of (n + 32) else c) s"

definition startsWith :: "string \<Rightarrow> string \<Rightarrow> bool" where
  "startsWith s p = (take (length p) s = p)"

text \<open>The inner loop that searches the track of one segment number: the first
  track with a non-empty name that starts with it, ignoring case.\<close>

definition trackMatches :: "string \<Rightarrow> gpx_track \<Rightarrow> bool" where
  "trackMatches targetSegment track =
     (case trk_name track of
        None \<Rightarrow> False
      | Some name \<Rightarrow> name \<noteq> [] \<and> startsWith (toLowerCase name) (toLowerCase targetSegment))"

definition foundTrackIndex :: "gpx_track list \<Rightarrow> string \<Rightarrow> nat option" where
  "foundTrackIndex ts targetSegment =
     map_option fst (List.find (\<lambda>(trackIndex, track). trackMatches targetSegment track)
                       (enumerate 0 ts))"

text \<open>\<open>CORRECT_TRACK_ORDER\<close>: per entry of \<open>SEGMENT_ORDER\<close> the \<open>gpxTrackIndex\<close>
  of its mapping, or \<open>None\<close> for the \<open>null\<close> pushed when no track was found.\<close>

definition CORRECT_TRACK_ORDER :: "gpx_parser \<Rightarrow> nat option list" where
  "CORRECT_TRACK_ORDER parser = map (foundTrackIndex (tracks parser)) SEGMENT_ORDER"

text \<open>One iteration of the loop over \<open>routeData\<close>; an index past the end of
  \<open>CORRECT_TRACK_ORDER\<close> reads \<open>undefined\<close>, which is as false as \<open>null\<close>.\<close>

definition orderedStep ::
  "gpx_parser \<Rightarrow> segment list \<times> nat \<times> nat \<Rightarrow> nat \<times> route_segment \<Rightarrow> segment list \<times> nat \<times> nat" where
  "orderedStep parser st entry =
     (let (segments, matched, interpolated) = st;
          (i, segmentData) = entry;
          order = CORRECT_TRACK_ORDER parser;
          trackMapping = (if i < length order then order ! i else None);
          fallback = (segments @ [interpolatedSegment MainJs segmentData i],
                      matched, interpolated + 1)
      in case trackMapping of
           None \<Rightarrow> fallback
         | Some gpxTrackIndex \<Rightarrow>
             if gpxTrackIndex < length (tracks parser) then
               let gpxTrack = tracks parser ! gpxTrackIndex;
                   trackCoords = trk_points gpxTrack
               in if length trackCoords \<ge> 2 then
                    (segments @ [buildSegmentObject MainJs segmentData i trackCoords
                                   (trackCoords ! 0) (trackCoords ! (length trackCoords - 1))],
                     matched + 1, interpolated)
                  else fallback
             else fallback)"

subsection \<open>\<open>processSegmentData\<close>\<close>

text \<open>
  In \<open>part_000\<close> the statements between the guard and the loop log the first
  track, its first and last point and the first and last entry of \<open>routeData\<close>;
  each of these reads throws a TypeError when the thing it reads is missing.
\<close>

definition processSegmentData ::
  "variant \<Rightarrow> globals \<Rightarrow> route_segment list \<Rightarrow> js_error + outcome" where
  "processSegmentData v g routeData =
     (case v of
        Part000 \<Rightarrow>
          if trailGpxParser g = None \<or> gpxTrailPoints g = [] then Inr (interpolateAll v routeData)
          else
            (case firstTrack g of
               Inl e \<Rightarrow> Inl e
             | Inr track \<Rightarrow>
                 let allPoints = trk_points track in
                 if trk_distance track = None \<or> allPoints = [] \<or> routeData = [] then Inl TypeError
                 else
                   (case matchLoop g allPoints routeData 0 ([], 0, 0) of
                      Inl e \<Rightarrow> Inl e
                    | Inr st \<Rightarrow> Inr (finish st)))
      | MainJs \<Rightarrow>
          (case trailGpxParser g of
             None \<Rightarrow> Inr (interpolateAll v routeData)
           | Some parser \<Rightarrow>
               Inr (finish (foldl (orderedStep parser) ([], 0, 0) (enumerate 0 routeData)))))"

section \<open>Properties of the sampler and of the interpolation\<close>

lemma intelligentSample_short:
  "length xs \<le> k \<Longrightarrow> intelligentSample xs k = xs"
  by (simp add: intelligentSample_def)

lemma intelligentSample_length:
  assumes "k < length xs" and "2 \<le> k"
  shows "length (intelligentSample xs k) = k"
  using assms by (simp add: intelligentSample_def Let_def)

lemma intelligentSample_hd:
  assumes "k < length xs"
  shows "hd (intelligentSample xs k) = hd xs"
proof -
  from assms have "xs \<noteq> []" by auto
  then have "xs ! 0 = hd xs" by (simp add: hd_conv_nth)
  with assms show ?thesis by (simp add: intelligentSample_def Let_def)
qed

lemma intelligentSample_last:
  assumes "k < length xs"
  shows "last (intelligentSample xs k) = last xs"
proof -
  from assms have "xs \<noteq> []" by auto
  then have "xs ! (length xs - 1) = last xs" by (simp add: last_conv_nth)
  with assms show ?thesis by (simp add: intelligentSample_def Let_def)
qed

text \<open>Every index the sampling loop reads lies strictly before the last index.\<close>

lemma intelligentSample_index:
  assumes "k < length xs" and "1 \<le> i" and "i < k - 1"
  shows "Math_round (real i * ((real (length xs) - 1) / (real k - 1))) < length xs"
proof -
  define n where "n = length xs"
  have k2: "2 \<le> k" using assms by linarith
  then have pos: "0 < real k - 1" by simp
  have nk: "real k - 1 \<le> real n - 1" using assms(1) by (simp add: n_def)
  have "real i \<le> real k - 2" using assms(3) by linarith
  then have "real i * (real n - 1) \<le> (real k - 2) * (real n - 1)"
    using nk pos by (intro mult_right_mono) auto
  also have "\<dots> = (real n - 1) * (real k - 1) - (real n - 1)"
    by (simp add: algebra_simps)
  also have "\<dots> \<le> (real n - 1) * (real k - 1) - (real k - 1)"
    using nk by simp
  also have "\<dots> = (real n - 2) * (real k - 1)"
    by (simp add: algebra_simps)
  finally have "real i * (real n - 1) / (real k - 1) \<le> real n - 2"
    using pos by (simp add: pos_divide_le_eq)
  then have "real i * ((real n - 1) / (real k - 1)) + 1 / 2 < real n - 1"
    by simp
  then have "\<lfloor>real i * ((real n - 1) / (real k - 1)) + 1 / 2\<rfloor> < int n - 1"
    by (simp add: floor_less_iff)
  moreover have "0 < n" using assms(1) unfolding n_def by linarith
  ultimately have "nat \<lfloor>real i * ((real n - 1) / (real k - 1)) + 1 / 2\<rfloor> < n"
    by linarith
  then show ?thesis
    by (simp add: Math_round_def n_def)
qed

lemma intelligentSample_subset: "set (intelligentSample xs k) \<subseteq> set xs"
proof (cases "length xs \<le> k")
  case True
  then show ?thesis by (simp add: intelligentSample_short)
next
  case False
  then have lt: "k < length xs" by simp
  then have ne: "0 < length xs" by (cases xs) simp_all
  have "xs ! Math_round (real i * ((real (length xs) - 1) / (real k - 1))) \<in> set xs"
    if "1 \<le> i" "i < k - 1" for i
    using intelligentSample_index [OF lt that] by simp
  moreover have "xs ! 0 \<in> set xs" "xs ! (length xs - 1) \<in> set xs"
    using ne by simp_all
  ultimately show ?thesis
    using lt by (auto simp: intelligentSample_def Let_def)
qed

text \<open>
  Claim C8. For every input sequence and every target count \<open>k \<ge> 2\<close> with more than
  \<open>k\<close> input points, the sampler returns exactly \<open>k\<close> points whose first and last
  elements are the input's first and last; an input of at most \<open>k\<close> points is
  returned unchanged.
\<close>

theorem intelligentSample_spec:
  "(k < length xs \<and> 2 \<le> k \<longrightarrow>
      length (intelligentSample xs k) = k
      \<and> hd (intelligentSample xs k) = hd xs
      \<and> last (intelligentSample xs k) = last xs)
   \<and> (length xs \<le> k \<longrightarrow> intelligentSample xs k = xs)"
  by (simp add: intelligentSample_short intelligentSample_length
      intelligentSample_hd intelligentSample_last)

theorem intelligentSample_spec_witness:
  "(3 < length [10, 20, 30, 40, 50 :: nat] \<and> (2::nat) \<le> 3)
   \<and> intelligentSample [10, 20, 30, 40, 50 :: nat] 3 = [10, 30, 50]
   \<and> length (intelligentSample [10, 20, 30, 40, 50 :: nat] 3) = 3
   \<and> hd (intelligentSample [10, 20, 30, 40, 50 :: nat] 3) = 10
   \<and> last (intelligentSample [10, 20, 30, 40, 50 :: nat] 3) = 50
   \<and> (length [1, 2 :: nat] \<le> 3) \<and> intelligentSample [1, 2 :: nat] 3 = [1, 2]"
proof -
  have ev: "intelligentSample [10, 20, 30, 40, 50 :: nat] 3 = [10, 30, 50]"
    by (simp add: intelligentSample_def Math_round_def upt_conv_Cons)
  show ?thesis
    using intelligentSample_spec [of 3 "[10, 20, 30, 40, 50 :: nat]"]
      intelligentSample_spec [of 3 "[1, 2 :: nat]"] ev
    by simp
qed

lemma createInterpolatedPath_length:
  "length (createInterpolatedPath s e) = steps + 1"
  by (simp add: createInterpolatedPath_def steps_def)

lemma createInterpolatedPath_nth:
  assumes "1 \<le> i" and "i < steps"
  shows "createInterpolatedPath s e ! i =
           (fst s + (fst e - fst s) * (real i / real steps),
            snd s + (snd e - snd s) * (real i / real steps))"
proof -
  obtain j where j: "i = Suc j" using assms(1) by (cases i) auto
  have "j < length [1..<steps]" using assms(2) j by simp
  then show ?thesis
    unfolding createInterpolatedPath_def j
    by (simp add: nth_append Let_def del: upt_Suc)
qed

text \<open>
  Claim C9. For every start and end coordinate the interpolation fallback returns
  exactly \<open>steps + 1 = 11\<close> points, the first is the start coordinate itself, the last
  is the end coordinate itself, and the point at each index \<open>i\<close> between them is the
  linear interpolation at parameter \<open>i / 10\<close>.
\<close>

theorem createInterpolatedPath_spec:
  "length (createInterpolatedPath s e) = steps + 1
   \<and> steps + 1 = 11
   \<and> hd (createInterpolatedPath s e) = s
   \<and> last (createInterpolatedPath s e) = e
   \<and> (\<forall>i. 1 \<le> i \<and> i < steps \<longrightarrow>
        createInterpolatedPath s e ! i =
          (fst s + (fst e - fst s) * (real i / 10),
           snd s + (snd e - snd s) * (real i / 10)))"
proof -
  have "hd (createInterpolatedPath s e) = s" "last (createInterpolatedPath s e) = e"
    by (simp_all add: createInterpolatedPath_def)
  moreover have "real steps = 10" by (simp add: steps_def)
  ultimately show ?thesis
    using createInterpolatedPath_nth [of _ s e]
    by (simp add: createInterpolatedPath_length steps_def)
qed

theorem createInterpolatedPath_spec_witness:
  "(1::nat) \<le> 5 \<and> 5 < steps
   \<and> createInterpolatedPath (0, 0) (10, 20) ! 5 = (5, 10)
   \<and> length (createInterpolatedPath (0, 0) (10, 20)) = 11"
  using createInterpolatedPath_spec [of "(0, 0)" "(10, 20)"]
  by (simp add: steps_def)

section \<open>The winding test\<close>

lemma calculateDistance_same_lon [simp]:
  "calculateDistance (a, c) (b, c) = \<bar>a - b\<bar>"
  by (simp add: calculateDistance_def)

lemma calculateDistance_self [simp]: "calculateDistance p p = 0"
  by (simp add: calculateDistance_def)

lemma calculateDistance_nonneg: "0 \<le> calculateDistance p q"
  by (simp add: calculateDistance_def)

lemma slice_Nil [simp]: "slice [] a b = []"
  by (simp add: slice_def)

lemma slice_Cons_0 [simp]: "slice (x # xs) 0 (Suc b) = x # slice xs 0 b"
  by (simp add: slice_def)

lemma slice_Cons_Suc [simp]: "slice (x # xs) (Suc a) (Suc b) = slice xs a b"
  by (simp add: slice_def)

lemma slice_0_0 [simp]: "slice xs a 0 = []"
  by (simp add: slice_def)





text \<open>
  Claim C10. When the target start equals the target end the straight-line distance
  is 0 and the winding ratio is a division by zero: its value is an infinity or
  NaN, the band test fails, and \<open>extractGpsTrackBetweenPoints\<close> returns no match
  (the function has no failing branch at all).
\<close>

theorem equal_targets_rejected:
  "extractGpsTrackBetweenPoints v gpxCoords startIdx endIdx t t = None"
  by (simp add: extractGpsTrackBetweenPoints_def Let_def windingRatio_def js_div_def)

section \<open>The nearest-point search\<close>

declare firstPass.simps [simp del] secondPass.simps [simp del]

lemma searchStep_pos: "0 < searchStep cs"
  by (simp add: searchStep_def)

lemma searchStep_small: "length cs < 2000 \<Longrightarrow> searchStep cs = 1"
  by (simp add: searchStep_def max_def) linarith

text \<open>What a pass leaves in its state, in terms of the state it started from: the
  minimum never grows, it is a lower bound of every distance the pass looked at, and
  the index changes only to an index whose distance is the new, smaller minimum.\<close>

lemma secondPass_inv:
  "snd (secondPass cs t e i st) \<le> snd st
   \<and> (\<forall>k. i \<le> k \<and> k < e \<longrightarrow> snd (secondPass cs t e i st) \<le> calculateDistance (cs ! k) t)
   \<and> (secondPass cs t e i st = st
      \<or> (i \<le> fst (secondPass cs t e i st) \<and> fst (secondPass cs t e i st) < e
         \<and> calculateDistance (cs ! fst (secondPass cs t e i st)) t = snd (secondPass cs t e i st)
         \<and> snd (secondPass cs t e i st) < snd st))"
proof (induction cs t e i st rule: secondPass.induct)
  case (1 cs t e i ci md)
  show ?case
  proof (cases "i < e")
    case False
    then show ?thesis by (simp add: secondPass.simps)
  next
    case True
    define st' where
      "st' = (if calculateDistance (cs ! i) t < md then (i, calculateDistance (cs ! i) t)
              else (ci, md))"
    have unf: "secondPass cs t e i (ci, md) = secondPass cs t e (Suc i) st'"
      using True by (subst secondPass.simps) (simp add: st'_def Let_def)
    define R where "R = secondPass cs t e (Suc i) st'"
    have IH: "snd R \<le> snd st'
       \<and> (\<forall>k. Suc i \<le> k \<and> k < e \<longrightarrow> snd R \<le> calculateDistance (cs ! k) t)
       \<and> (R = st'
          \<or> (Suc i \<le> fst R \<and> fst R < e \<and> calculateDistance (cs ! fst R) t = snd R
             \<and> snd R < snd st'))"
      using "1.IH" [OF True refl refl] unfolding st'_def R_def .
    have st'_le: "snd st' \<le> md" "snd st' \<le> calculateDistance (cs ! i) t"
      by (simp_all add: st'_def)
    have st'_cases: "st' = (ci, md) \<or> (st' = (i, calculateDistance (cs ! i) t) \<and> snd st' < md)"
      by (simp add: st'_def)
    have le: "snd R \<le> md" using IH st'_le by linarith
    have bound: "snd R \<le> calculateDistance (cs ! k) t" if "i \<le> k" "k < e" for k
    proof (cases "k = i")
      case True
      have "snd R \<le> calculateDistance (cs ! i) t" using IH st'_le by linarith
      then show ?thesis using True by simp
    next
      case False
      then have "Suc i \<le> k" using that by simp
      then show ?thesis using IH that by blast
    qed
    have idx: "R = (ci, md)
        \<or> (i \<le> fst R \<and> fst R < e \<and> calculateDistance (cs ! fst R) t = snd R \<and> snd R < md)"
    proof (cases "R = st'")
      case True
      then show ?thesis using st'_cases \<open>i < e\<close> by auto
    next
      case False
      then have "Suc i \<le> fst R \<and> fst R < e \<and> calculateDistance (cs ! fst R) t = snd R
                 \<and> snd R < snd st'"
        using IH by blast
      then show ?thesis using st'_le by auto
    qed
    show ?thesis
      unfolding unf R_def [symmetric] using le bound idx by simp
  qed
qed

lemma firstPass_inv:
  "snd (firstPass cs t i st) \<le> snd st
   \<and> (\<forall>j. i + j * searchStep cs < length cs \<longrightarrow>
          snd (firstPass cs t i st) \<le> calculateDistance (cs ! (i + j * searchStep cs)) t)
   \<and> (firstPass cs t i st = st
      \<or> ((\<exists>j. fst (firstPass cs t i st) = i + j * searchStep cs)
         \<and> fst (firstPass cs t i st) < length cs
         \<and> calculateDistance (cs ! fst (firstPass cs t i st)) t = snd (firstPass cs t i st)
         \<and> snd (firstPass cs t i st) < snd st))"
proof (induction cs t i st rule: firstPass.induct)
  case (1 cs t i ci md)
  show ?case
  proof (cases "i < length cs")
    case False
    then show ?thesis by (simp add: firstPass.simps)
  next
    case True
    define s where "s = searchStep cs"
    define st' where
      "st' = (if calculateDistance (cs ! i) t < md then (i, calculateDistance (cs ! i) t)
              else (ci, md))"
    define R where "R = firstPass cs t (i + s) st'"
    have unf: "firstPass cs t i (ci, md) = R"
      using True unfolding R_def s_def
      by (subst firstPass.simps) (simp add: st'_def Let_def)
    have IH: "snd R \<le> snd st'
       \<and> (\<forall>j. i + s + j * s < length cs \<longrightarrow> snd R \<le> calculateDistance (cs ! (i + s + j * s)) t)
       \<and> (R = st'
          \<or> ((\<exists>j. fst R = i + s + j * s) \<and> fst R < length cs
             \<and> calculateDistance (cs ! fst R) t = snd R \<and> snd R < snd st'))"
      using "1.IH" [OF True refl refl] unfolding st'_def R_def s_def .
    have st'_le: "snd st' \<le> md" "snd st' \<le> calculateDistance (cs ! i) t"
      by (simp_all add: st'_def)
    have st'_cases: "st' = (ci, md) \<or> (st' = (i, calculateDistance (cs ! i) t) \<and> snd st' < md)"
      by (simp add: st'_def)
    have le: "snd R \<le> md" using IH st'_le by linarith
    have bound: "snd R \<le> calculateDistance (cs ! (i + j * s)) t" if "i + j * s < length cs" for j
    proof (cases j)
      case 0
      have "snd R \<le> calculateDistance (cs ! i) t" using IH st'_le by linarith
      then show ?thesis using 0 by simp
    next
      case (Suc j')
      then have eq: "i + j * s = i + s + j' * s" by simp
      show ?thesis using IH that unfolding eq by blast
    qed
    have idx: "R = (ci, md)
        \<or> ((\<exists>j. fst R = i + j * s) \<and> fst R < length cs
           \<and> calculateDistance (cs ! fst R) t = snd R \<and> snd R < md)"
    proof (cases "R = st'")
      case True
      have "i = i + 0 * s" by simp
      then have "\<exists>j. i = i + j * s" by blast
      then show ?thesis using True st'_cases \<open>i < length cs\<close> by auto
    next
      case False
      then obtain j where j: "fst R = i + s + j * s"
        and rest: "fst R < length cs" "calculateDistance (cs ! fst R) t = snd R" "snd R < snd st'"
        using IH by blast
      have "fst R = i + Suc j * s" using j by simp
      then have "\<exists>j. fst R = i + j * s" by blast
      then show ?thesis using rest st'_le by auto
    qed
    show ?thesis
      unfolding unf s_def [symmetric] using le bound idx by simp
  qed
qed

lemma firstPass_noop:
  assumes "\<And>j. i + j * searchStep cs < length cs \<Longrightarrow>
             \<not> calculateDistance (cs ! (i + j * searchStep cs)) t < md"
  shows "firstPass cs t i (ci, md) = (ci, md)"
proof (rule ccontr)
  assume neq: "firstPass cs t i (ci, md) \<noteq> (ci, md)"
  define R where "R = firstPass cs t i (ci, md)"
  from firstPass_inv [of cs t i "(ci, md)"] neq
  have "(\<exists>j. fst R = i + j * searchStep cs) \<and> fst R < length cs
        \<and> calculateDistance (cs ! fst R) t = snd R \<and> snd R < snd (ci, md)"
    unfolding R_def by blast
  then obtain j where j: "fst R = i + j * searchStep cs"
    and rest: "fst R < length cs" "calculateDistance (cs ! fst R) t = snd R" "snd R < md"
    by fastforce
  show False using assms [of j] rest unfolding j by simp
qed

lemma secondPass_noop:
  assumes "\<And>k. i \<le> k \<Longrightarrow> k < e \<Longrightarrow> \<not> calculateDistance (cs ! k) t < md"
  shows "secondPass cs t e i (ci, md) = (ci, md)"
proof (rule ccontr)
  assume neq: "secondPass cs t e i (ci, md) \<noteq> (ci, md)"
  define R where "R = secondPass cs t e i (ci, md)"
  from secondPass_inv [of cs t e i "(ci, md)"] neq
  have "i \<le> fst R \<and> fst R < e \<and> calculateDistance (cs ! fst R) t = snd R
        \<and> snd R < snd (ci, md)"
    unfolding R_def by blast
  then show False using assms [of "fst R"] by simp
qed

text \<open>The index returned on a non-empty track is an index of the track, so the
  reads \<open>gpxCoords[bestStartIdx]\<close> and \<open>gpxCoords[bestEndIdx]\<close> are in range.\<close>

lemma findClosestPointIndex_in_range:
  assumes "cs \<noteq> []"
  shows "findClosestPointIndex cs t < length cs"
proof -
  define F where "F = firstPass cs t 0 (0, MAX_VALUE)"
  define r where "r = max 50 (searchStep cs * 2)"
  define S where "S = secondPass cs t (min (length cs) (fst F + r))
                        (nat (max 0 (int (fst F) - int r))) (fst F, MAX_VALUE)"
  have res: "findClosestPointIndex cs t = fst S"
    by (simp add: findClosestPointIndex_def F_def r_def S_def Let_def split: prod.splits)
  have n: "0 < length cs" using assms by simp
  have F: "fst F < length cs"
    using firstPass_inv [of cs t 0 "(0, MAX_VALUE)"] n unfolding F_def by auto
  have "S = (fst F, MAX_VALUE) \<or> fst S < min (length cs) (fst F + r)"
    using secondPass_inv [of cs t "min (length cs) (fst F + r)"
        "nat (max 0 (int (fst F) - int r))" "(fst F, MAX_VALUE)"]
    unfolding S_def by blast
  then show ?thesis using F res by auto
qed

text \<open>With fewer than 2000 points the coarse pass looks at every point, and the
  refining pass starts at or before the coarse winner.\<close>

lemma findClosestPointIndex_small:
  assumes len: "length cs < 2000"
    and near: "k0 < length cs" "calculateDistance (cs ! k0) t < MAX_VALUE"
    and k: "k < length cs"
  shows "calculateDistance (cs ! findClosestPointIndex cs t) t \<le> calculateDistance (cs ! k) t"
proof -
  define F where "F = firstPass cs t 0 (0, MAX_VALUE)"
  define r where "r = max 50 (searchStep cs * 2)"
  define a where "a = nat (max 0 (int (fst F) - int r))"
  define e where "e = min (length cs) (fst F + r)"
  define S where "S = secondPass cs t e a (fst F, MAX_VALUE)"
  have res: "findClosestPointIndex cs t = fst S"
    by (simp add: findClosestPointIndex_def F_def r_def S_def a_def e_def Let_def
             split: prod.splits)
  have step: "searchStep cs = 1" using len by (rule searchStep_small)
  have Finv: "(\<forall>j. j < length cs \<longrightarrow> snd F \<le> calculateDistance (cs ! j) t)
      \<and> (F = (0, MAX_VALUE)
         \<or> (fst F < length cs \<and> calculateDistance (cs ! fst F) t = snd F \<and> snd F < MAX_VALUE))"
    using firstPass_inv [of cs t 0 "(0, MAX_VALUE)"] unfolding F_def step by simp
  have Fmin: "snd F \<le> calculateDistance (cs ! j) t" if "j < length cs" for j
    using Finv that by blast
  have "snd F < MAX_VALUE" using Fmin [OF near(1)] near(2) by linarith
  then have Fidx: "fst F < length cs" "calculateDistance (cs ! fst F) t = snd F"
    using Finv by auto
  have r: "0 < r" by (simp add: r_def)
  have win: "a \<le> fst F" "fst F < e"
    using Fidx(1) r by (simp_all add: a_def e_def)
  have Sinv: "(\<forall>j. a \<le> j \<and> j < e \<longrightarrow> snd S \<le> calculateDistance (cs ! j) t)
      \<and> (S = (fst F, MAX_VALUE)
         \<or> (calculateDistance (cs ! fst S) t = snd S \<and> snd S < MAX_VALUE))"
    using secondPass_inv [of cs t e a "(fst F, MAX_VALUE)"] unfolding S_def by auto
  have Sle: "snd S \<le> snd F" using Sinv win Fidx(2) by auto
  then have "snd S < MAX_VALUE" using \<open>snd F < MAX_VALUE\<close> by linarith
  then have "calculateDistance (cs ! fst S) t = snd S" using Sinv by auto
  then show ?thesis using Sle Fmin [OF k] res by simp
qed

lemma MAX_VALUE_large: "3 < MAX_VALUE"
proof -
  have "(2::real) ^ 971 \<ge> 1" by simp
  moreover have "(2::real) ^ 53 - 1 \<ge> 4" by simp
  ultimately have "4 * 1 \<le> ((2::real) ^ 53 - 1) * 2 ^ 971"
    by (intro mult_mono) simp_all
  then show ?thesis by (simp add: MAX_VALUE_def)
qed

text \<open>
  Claim C3, as the code has it. The coarse pass samples every
  \<open>max(1, floor(length / 1000))\<close>-th point, so it visits every point only on a
  track of fewer than 2000 points. For every such non-empty track with at least one
  point closer to the target than \<open>Number.MAX_VALUE\<close> (the initial minimum), the
  returned index is an index of the track whose planar distance to the target is at
  most that of every index of the track.
\<close>

theorem findClosestPointIndex_global_min:
  assumes "cs \<noteq> []" and "length cs < 2000"
    and "\<exists>k0 < length cs. calculateDistance (cs ! k0) t < MAX_VALUE"
  shows "findClosestPointIndex cs t < length cs
       \<and> (\<forall>k < length cs.
            calculateDistance (cs ! findClosestPointIndex cs t) t \<le> calculateDistance (cs ! k) t)"
  using assms findClosestPointIndex_in_range [of cs t] findClosestPointIndex_small [of cs _ t]
  by blast

theorem findClosestPointIndex_global_min_witness:
  "[(5, 0), (1, 0), (3, 0)] \<noteq> ([] :: coord list)
   \<and> length [(5, 0), (1, 0), (3, 0) :: coord] < 2000
   \<and> (\<exists>k0 < length [(5, 0), (1, 0), (3, 0) :: coord].
         calculateDistance ([(5, 0), (1, 0), (3, 0)] ! k0) (0, 0) < MAX_VALUE)
   \<and> findClosestPointIndex [(5, 0), (1, 0), (3, 0)] (0, 0) < 3
   \<and> calculateDistance ([(5, 0), (1, 0), (3, 0)] ! findClosestPointIndex [(5, 0), (1, 0), (3, 0)] (0, 0))
        (0, 0) \<le> calculateDistance ([(5, 0), (1, 0), (3, 0)] ! 1) (0, 0)"
proof -
  have near: "\<exists>k0 < length [(5, 0), (1, 0), (3, 0) :: coord].
         calculateDistance ([(5, 0), (1, 0), (3, 0)] ! k0) (0, 0) < MAX_VALUE"
    using MAX_VALUE_large by (intro exI [of _ 1]) simp
  have "findClosestPointIndex [(5, 0), (1, 0), (3, 0)] (0, 0) < length [(5, 0), (1, 0), (3, 0) :: coord]
       \<and> (\<forall>k < length [(5, 0), (1, 0), (3, 0) :: coord].
            calculateDistance ([(5, 0), (1, 0), (3, 0)] ! findClosestPointIndex [(5, 0), (1, 0), (3, 0)] (0, 0)) (0, 0)
              \<le> calculateDistance ([(5, 0), (1, 0), (3, 0)] ! k) (0, 0))"
    by (rule findClosestPointIndex_global_min [OF _ _ near]) simp_all
  then have idx: "findClosestPointIndex [(5, 0), (1, 0), (3, 0)] (0, 0) < 3"
    and all: "\<And>k. k < length [(5, 0), (1, 0), (3, 0) :: coord] \<Longrightarrow>
            calculateDistance ([(5, 0), (1, 0), (3, 0)] ! findClosestPointIndex [(5, 0), (1, 0), (3, 0)] (0, 0)) (0, 0)
              \<le> calculateDistance ([(5, 0), (1, 0), (3, 0)] ! k) (0, 0)"
    by simp_all
  have "(1::nat) < length [(5, 0), (1, 0), (3, 0) :: coord]" by simp
  from all [OF this] idx near show ?thesis by simp
qed

text \<open>
  On a track of 2000 points the coarse pass looks at the even indices only and the
  refining pass at the 50 indices after the coarse winner. Here index 0 is at
  distance 1, index 1999 is the target itself and every other point is at distance 2:
  the search returns index 0.
\<close>

lemma sampledTrack_nth:
  assumes "1 \<le> k" and "k \<le> 1998"
  shows "((1, 0) # replicate 1998 (2, 0) @ [(0, 0)]) ! k = ((2, 0) :: coord)"
proof -
  obtain k' where k': "k = Suc k'" using assms(1) by (cases k) auto
  then have "k' < 1998" using assms(2) by simp
  then show ?thesis unfolding k' by (simp add: nth_append)
qed

lemma sampledTrack_result:
  "findClosestPointIndex ((1, 0) # replicate 1998 (2, 0) @ [(0, 0)]) (0, 0) = 0"
proof -
  define T :: "coord list" where "T = (1, 0) # replicate 1998 (2, 0) @ [(0, 0)]"
  have len: "length T = 2000" by (simp add: T_def)
  have step: "searchStep T = 2" by (simp add: searchStep_def len)
  have T0: "T ! 0 = (1, 0)" by (simp add: T_def)
  have Tk: "T ! k = (2, 0)" if "1 \<le> k" "k \<le> 1998" for k
    using sampledTrack_nth [OF that] by (simp add: T_def)
  have d0: "calculateDistance (T ! 0) (0, 0) = 1" by (simp add: T0)
  have dk: "calculateDistance (T ! k) (0, 0) = 2" if "1 \<le> k" "k \<le> 1998" for k
    by (simp add: Tk [OF that])
  have lt: "(1::real) < MAX_VALUE" using MAX_VALUE_large by simp
  have "firstPass T (0, 0) 0 (0, MAX_VALUE) = firstPass T (0, 0) 2 (0, 1)"
    by (subst firstPass.simps) (simp add: len step d0 lt Let_def numeral_2_eq_2)
  also have "\<dots> = (0, 1)"
  proof (rule firstPass_noop)
    fix j assume "2 + j * searchStep T < length T"
    then have "1 \<le> 2 + j * 2" "2 + j * 2 \<le> 1998" by (simp_all add: step len)
    then show "\<not> calculateDistance (T ! (2 + j * searchStep T)) (0, 0) < 1"
      unfolding step using dk by simp
  qed
  finally have F: "firstPass T (0, 0) 0 (0, MAX_VALUE) = (0, 1)" .
  have "secondPass T (0, 0) 50 0 (0, MAX_VALUE) = secondPass T (0, 0) 50 1 (0, 1)"
    by (subst secondPass.simps) (simp add: d0 lt Let_def)
  also have "\<dots> = (0, 1)"
  proof (rule secondPass_noop)
    fix k :: nat assume "1 \<le> k" "k < 50"
    then show "\<not> calculateDistance (T ! k) (0, 0) < 1" using dk [of k] by simp
  qed
  finally have S: "secondPass T (0, 0) 50 0 (0, MAX_VALUE) = (0, 1)" .
  have "findClosestPointIndex T (0, 0) = 0"
    by (simp add: findClosestPointIndex_def F S step len Let_def)
  then show ?thesis by (simp add: T_def)
qed

theorem findClosestPointIndex_not_global:
  "(1, 0) # replicate 1998 (2, 0) @ [(0, 0)] \<noteq> ([] :: coord list)
   \<and> \<not> calculateDistance
          (((1, 0) # replicate 1998 (2, 0) @ [(0, 0)])
             ! findClosestPointIndex ((1, 0) # replicate 1998 (2, 0) @ [(0, 0)]) (0, 0)) (0, 0)
        \<le> calculateDistance (((1, 0) # replicate 1998 (2, 0) @ [(0, 0)]) ! 1999) (0, 0)"
proof -
  have "((1, 0) # replicate 1998 (2, 0) @ [(0, 0)]) ! 1999 = ((0, 0) :: coord)"
    by (simp add: nth_append)
  then show ?thesis by (simp add: sampledTrack_result)
qed

section \<open>The distance-budget search\<close>

lemma indexPairs_bounds:
  assumes "(i, j) \<in> set (indexPairs n)"
  shows "i + 10 \<le> j \<and> j < n"
  using assms by (auto simp: indexPairs_def)

lemma js_lt_div_half:
  assumes "js_lt (js_div x T) (1 / 2)" and "0 \<le> x"
  shows "T \<noteq> 0 \<and> x / T < 1 / 2"
  using assms by (auto simp: js_div_def split: if_splits)

text \<open>What an accepted result of \<open>findSegmentByDistance\<close> is: the slice of the track
  between an index pair at least ten apart whose cumulative-distance difference is
  within half of the target distance, in \<open>Part000\<close> with both ends overwritten.\<close>

lemma findSegmentByDistance_Some:
  assumes "findSegmentByDistance v track s e = Inr (Some path)"
  shows "\<exists>d cum i j.
           trk_distance track = Some d \<and> distance_cumul d = Some cum
           \<and> length cum = length (trk_points track)
           \<and> i + 10 \<le> j \<and> j < length (trk_points track)
           \<and> calculateDistance s e \<noteq> 0
           \<and> \<bar>cum ! j - cum ! i - calculateDistance s e * 111000\<bar>
                 / (calculateDistance s e * 111000) < 1 / 2
           \<and> path = (case v of
                 Part000 \<Rightarrow> ((slice (trk_points track) i (j + 1))[0 := s])
                              [length (slice (trk_points track) i (j + 1)) - 1 := e]
               | MainJs \<Rightarrow> slice (trk_points track) i (j + 1))"
proof -
  from assms obtain d where d: "trk_distance track = Some d"
    by (auto simp: findSegmentByDistance_def split: option.splits)
  from assms d obtain cum where cum: "distance_cumul d = Some cum"
    by (auto simp: findSegmentByDistance_def split: option.splits)
  define T where "T = calculateDistance s e * 111000"
  define P where "P = (\<lambda>(i, j). js_lt (js_div \<bar>cum ! j - cum ! i - T\<bar> T) (1 / 2)
                        \<and> length (slice (trk_points track) i (j + 1)) \<ge> 2)"
  from assms d cum have len: "length cum = length (trk_points track)"
    by (auto simp: findSegmentByDistance_def Let_def split: if_splits)
  from assms d cum len obtain i j where
    found: "List.find P (indexPairs (length (trk_points track))) = Some (i, j)"
    and path: "path = (case v of
                 Part000 \<Rightarrow> ((slice (trk_points track) i (j + 1))[0 := s])
                              [length (slice (trk_points track) i (j + 1)) - 1 := e]
               | MainJs \<Rightarrow> slice (trk_points track) i (j + 1))"
    unfolding findSegmentByDistance_def Let_def P_def T_def
    by (auto split: option.splits prod.splits)
  from found have mem: "(i, j) \<in> set (indexPairs (length (trk_points track)))" and "P (i, j)"
    by (auto simp: find_Some_iff)
  then have "js_lt (js_div \<bar>cum ! j - cum ! i - T\<bar> T) (1 / 2)" by (simp add: P_def)
  then have "T \<noteq> 0 \<and> \<bar>cum ! j - cum ! i - T\<bar> / T < 1 / 2"
    by (rule js_lt_div_half) simp
  then have "calculateDistance s e \<noteq> 0
      \<and> \<bar>cum ! j - cum ! i - calculateDistance s e * 111000\<bar>
            / (calculateDistance s e * 111000) < 1 / 2"
    by (simp add: T_def)
  with d cum len indexPairs_bounds [OF mem] path show ?thesis by blast
qed

text \<open>
  Claim C2, as the code has it. \<open>findSegmentByDistance\<close> applies no winding test.
  Every path it returns is the slice of the track between an index pair \<open>(i, j)\<close>,
  \<open>j \<ge> i + 10\<close>, whose cumulative-distance difference is within 50 per cent
  relative error of the target arc length (the planar distance of the targets times
  111000); in \<open>part_000\<close> the two end points of the slice are replaced by the targets,
  in \<open>main.js\<close> the slice is returned as it is.
\<close>

theorem findSegmentByDistance_budget_only:
  assumes "findSegmentByDistance v track s e = Inr (Some path)"
  shows "\<exists>d cum i j.
           trk_distance track = Some d \<and> distance_cumul d = Some cum
           \<and> length cum = length (trk_points track)
           \<and> i + 10 \<le> j \<and> j < length (trk_points track)
           \<and> calculateDistance s e \<noteq> 0
           \<and> \<bar>cum ! j - cum ! i - calculateDistance s e * 111000\<bar>
                 / (calculateDistance s e * 111000) < 1 / 2
           \<and> path = (case v of
                 Part000 \<Rightarrow> ((slice (trk_points track) i (j + 1))[0 := s])
                              [length (slice (trk_points track) i (j + 1)) - 1 := e]
               | MainJs \<Rightarrow> slice (trk_points track) i (j + 1))"
  using assms by (rule findSegmentByDistance_Some)

lemma calculateDistance_same_lat [simp]:
  "calculateDistance (c, a) (c, b) = \<bar>a - b\<bar>"
  by (simp add: calculateDistance_def)

lemma indexPairs_11: "indexPairs 11 = [(0, 10)]"
  by (simp add: indexPairs_def upt_conv_Cons)

lemma findSegmentByDistance_eleven:
  assumes len: "length pts = 11" "length cum = 11"
    and T: "calculateDistance s e * 111000 = T" "T \<noteq> 0"
    and near: "\<bar>cum ! 10 - cum ! 0 - T\<bar> / T < 1 / 2"
  shows "findSegmentByDistance v
           \<lparr>trk_name = nm, trk_points = pts,
            trk_distance = Some \<lparr>distance_total = tot, distance_cumul = Some cum\<rparr>\<rparr> s e
         = Inr (Some (case v of Part000 \<Rightarrow> (pts[0 := s])[10 := e] | MainJs \<Rightarrow> pts))"
proof -
  have sl: "slice pts 0 11 = pts" by (simp add: slice_def len)
  have ok: "js_lt (js_div \<bar>cum ! 10 - cum ! 0 - T\<bar> T) (1 / 2)"
    using T(2) near by (simp add: js_div_def)
  show ?thesis
    unfolding findSegmentByDistance_def
    by (cases v) (simp_all add: len T(1) indexPairs_11 sl ok Let_def)
qed

text \<open>
  A track of eleven points along the parallel of 85 degrees north, two degrees of
  longitude apart, with its cumulative great-circle distances in metres (rounded;
  a degree of longitude is about 9.7 km there), and targets 1.5 degrees apart: the
  search accepts the whole track, whose planar length is 20 degrees.
\<close>

lemma northTrack_found:
  "findSegmentByDistance v
     \<lparr>trk_name = None,
      trk_points = [(85, 0), (85, 2), (85, 4), (85, 6), (85, 8), (85, 10), (85, 12),
                    (85, 14), (85, 16), (85, 18), (85, 20)],
      trk_distance = Some \<lparr>distance_total = 193816,
        distance_cumul = Some [0, 19382, 38763, 58145, 77526, 96908, 116289, 135671,
                               155053, 174434, 193816]\<rparr>\<rparr>
     (85, 0) (85, 3 / 2)
   = Inr (Some (case v of
        Part000 \<Rightarrow> [(85, 0), (85, 2), (85, 4), (85, 6), (85, 8), (85, 10), (85, 12),
                    (85, 14), (85, 16), (85, 18), (85, 3 / 2)]
      | MainJs \<Rightarrow> [(85, 0), (85, 2), (85, 4), (85, 6), (85, 8), (85, 10), (85, 12),
                   (85, 14), (85, 16), (85, 18), (85, 20)]))"
proof -
  have "findSegmentByDistance v
     \<lparr>trk_name = None,
      trk_points = [(85, 0), (85, 2), (85, 4), (85, 6), (85, 8), (85, 10), (85, 12),
                    (85, 14), (85, 16), (85, 18), (85, 20)],
      trk_distance = Some \<lparr>distance_total = 193816,
        distance_cumul = Some [0, 19382, 38763, 58145, 77526, 96908, 116289, 135671,
                               155053, 174434, 193816]\<rparr>\<rparr>
     (85, 0) (85, 3 / 2)
   = Inr (Some (case v of
        Part000 \<Rightarrow> ([(85, 0), (85, 2), (85, 4), (85, 6), (85, 8), (85, 10), (85, 12),
                    (85, 14), (85, 16), (85, 18), (85, 20)][0 := (85, 0)])[10 := (85, 3 / 2)]
      | MainJs \<Rightarrow> [(85, 0), (85, 2), (85, 4), (85, 6), (85, 8), (85, 10), (85, 12),
                   (85, 14), (85, 16), (85, 18), (85, 20)]))"
    by (rule findSegmentByDistance_eleven [where T = 166500]) simp_all
  then show ?thesis by (cases v) simp_all
qed

theorem findSegmentByDistance_no_winding_test:
  "findSegmentByDistance MainJs
     \<lparr>trk_name = None,
      trk_points = [(85, 0), (85, 2), (85, 4), (85, 6), (85, 8), (85, 10), (85, 12),
                    (85, 14), (85, 16), (85, 18), (85, 20)],
      trk_distance = Some \<lparr>distance_total = 193816,
        distance_cumul = Some [0, 19382, 38763, 58145, 77526, 96908, 116289, 135671,
                               155053, 174434, 193816]\<rparr>\<rparr>
     (85, 0) (85, 3 / 2)
   = Inr (Some [(85, 0), (85, 2), (85, 4), (85, 6), (85, 8), (85, 10), (85, 12),
                (85, 14), (85, 16), (85, 18), (85, 20)])
   \<and> windingRatio [(85, 0), (85, 2), (85, 4), (85, 6), (85, 8), (85, 10), (85, 12),
                    (85, 14), (85, 16), (85, 18), (85, 20)] (85, 0) (85, 3 / 2) = Fin (40 / 3)
   \<and> \<not> (40 / 3 < (10 :: real))
   \<and> findSegmentByDistance Part000
     \<lparr>trk_name = None,
      trk_points = [(85, 0), (85, 2), (85, 4), (85, 6), (85, 8), (85, 10), (85, 12),
                    (85, 14), (85, 16), (85, 18), (85, 20)],
      trk_distance = Some \<lparr>distance_total = 193816,
        distance_cumul = Some [0, 19382, 38763, 58145, 77526, 96908, 116289, 135671,
                               155053, 174434, 193816]\<rparr>\<rparr>
     (85, 0) (85, 3 / 2)
   = Inr (Some [(85, 0), (85, 2), (85, 4), (85, 6), (85, 8), (85, 10), (85, 12),
                (85, 14), (85, 16), (85, 18), (85, 3 / 2)])
   \<and> windingRatio [(85, 0), (85, 2), (85, 4), (85, 6), (85, 8), (85, 10), (85, 12),
                    (85, 14), (85, 16), (85, 18), (85, 3 / 2)] (85, 0) (85, 3 / 2) = Fin 23
   \<and> \<not> (23 < (10 :: real))"
proof -
  have r1: "windingRatio [(85, 0), (85, 2), (85, 4), (85, 6), (85, 8), (85, 10), (85, 12),
                    (85, 14), (85, 16), (85, 18), (85, 20)] (85, 0) (85, 3 / 2) = Fin (40 / 3)"
    by (simp add: windingRatio_def calculateTotalDistance_def js_div_def)
  have r2: "windingRatio [(85, 0), (85, 2), (85, 4), (85, 6), (85, 8), (85, 10), (85, 12),
                    (85, 14), (85, 16), (85, 18), (85, 3 / 2)] (85, 0) (85, 3 / 2) = Fin 23"
    by (simp add: windingRatio_def calculateTotalDistance_def js_div_def)
  show ?thesis
    using northTrack_found [of MainJs] northTrack_found [of Part000] r1 r2 by simp
qed

theorem findSegmentByDistance_budget_only_witness:
  "findSegmentByDistance MainJs
     \<lparr>trk_name = None,
      trk_points = [(85, 0), (85, 2), (85, 4), (85, 6), (85, 8), (85, 10), (85, 12),
                    (85, 14), (85, 16), (85, 18), (85, 20)],
      trk_distance = Some \<lparr>distance_total = 193816,
        distance_cumul = Some [0, 19382, 38763, 58145, 77526, 96908, 116289, 135671,
                               155053, 174434, 193816]\<rparr>\<rparr>
     (85, 0) (85, 3 / 2)
   = Inr (Some [(85, 0), (85, 2), (85, 4), (85, 6), (85, 8), (85, 10), (85, 12),
                (85, 14), (85, 16), (85, 18), (85, 20)])
   \<and> (\<exists>i j. i + 10 \<le> j \<and> j < (11 :: nat)
        \<and> \<bar>[0, 19382, 38763, 58145, 77526, 96908, 116289, 135671, 155053, 174434, 193816] ! j
             - [0, 19382, 38763, 58145, 77526, 96908, 116289, 135671, 155053, 174434, 193816] ! i
             - calculateDistance (85, 0) (85, 3 / 2) * 111000\<bar>
            / (calculateDistance (85, 0) (85, 3 / 2) * 111000) < 1 / 2)"
proof -
  have f: "findSegmentByDistance MainJs
     \<lparr>trk_name = None,
      trk_points = [(85, 0), (85, 2), (85, 4), (85, 6), (85, 8), (85, 10), (85, 12),
                    (85, 14), (85, 16), (85, 18), (85, 20)],
      trk_distance = Some \<lparr>distance_total = 193816,
        distance_cumul = Some [0, 19382, 38763, 58145, 77526, 96908, 116289, 135671,
                               155053, 174434, 193816]\<rparr>\<rparr>
     (85, 0) (85, 3 / 2)
   = Inr (Some [(85, 0), (85, 2), (85, 4), (85, 6), (85, 8), (85, 10), (85, 12),
                (85, 14), (85, 16), (85, 18), (85, 20)])"
    using northTrack_found [of MainJs] by simp
  from findSegmentByDistance_budget_only [OF f]
  obtain d cum i j where d: "Some \<lparr>distance_total = 193816,
        distance_cumul = Some [0, 19382, 38763, 58145, 77526, 96908, 116289, 135671,
                               155053, 174434, 193816]\<rparr> = Some d"
    and cum: "distance_cumul d = Some cum"
    and ij: "i + 10 \<le> j" "j < 11"
    and near: "\<bar>cum ! j - cum ! i - calculateDistance (85, 0) (85, 3 / 2) * 111000\<bar>
                 / (calculateDistance (85, 0) (85, 3 / 2) * 111000) < 1 / 2"
    by (auto simp del: calculateDistance_same_lat)
  from d cum have "cum = [0, 19382, 38763, 58145, 77526, 96908, 116289, 135671,
                          155053, 174434, 193816]"
    by auto
  with ij near have "\<exists>i j. i + 10 \<le> j \<and> j < (11 :: nat)
        \<and> \<bar>[0, 19382, 38763, 58145, 77526, 96908, 116289, 135671, 155053, 174434, 193816] ! j
             - [0, 19382, 38763, 58145, 77526, 96908, 116289, 135671, 155053, 174434, 193816] ! i
             - calculateDistance (85, 0) (85, 3 / 2) * 111000\<bar>
            / (calculateDistance (85, 0) (85, 3 / 2) * 111000) < 1 / 2"
    by blast
  with f show ?thesis by blast
qed

section \<open>End points of an accepted path\<close>

















section \<open>Running the matcher on small tracks\<close>

lemma below_MAX_VALUE: "x \<le> 1000 \<Longrightarrow> x < MAX_VALUE"
proof -
  have "(2::real) ^ 971 \<ge> 1" by simp
  moreover have "(2::real) ^ 53 - 1 \<ge> 1001" by simp
  ultimately have "1001 * 1 \<le> ((2::real) ^ 53 - 1) * 2 ^ 971"
    by (intro mult_mono) simp_all
  then show "x \<le> 1000 \<Longrightarrow> x < MAX_VALUE" by (simp add: MAX_VALUE_def)
qed

lemmas eval_search = findClosestPointIndex_def firstPass.simps secondPass.simps searchStep_def
  Let_def below_MAX_VALUE

lemmas eval_extract = extractGpsTrackBetweenPoints_def rawGpsSegment_def finalPath_def
  windingRatio_def calculateTotalDistance_def js_div_def slice_def Let_def



section \<open>The direct match ends the search\<close>

text \<open>When both nearest points are within the tolerance the matcher returns what
  \<open>extractGpsTrackBetweenPoints\<close> returns, also when that is no match.\<close>

lemma direct_match_is_final:
  assumes "cs \<noteq> []"
    and "calculateDistance (cs ! findClosestPointIndex cs s) s \<le> 3"
    and "calculateDistance (cs ! findClosestPointIndex cs e) e \<le> 3"
  shows "findGpxSegmentForCoordinates v g cs s e =
           Inr (extractGpsTrackBetweenPoints v cs (findClosestPointIndex cs s)
                  (findClosestPointIndex cs e) s e)"
  using assms by (simp add: findGpxSegmentForCoordinates_def Let_def)

text \<open>On a track of fewer than 2000 points the nearest-point search is exact, so when
  the tolerance check fails there is no nearby point for one of the targets and
  approach 2 has nothing to combine: it can only ever find a path in the case the code
  never lets it see, a direct match that the winding test rejected.\<close>

lemma far_target_no_nearby:
  assumes "cs \<noteq> []" and "length cs < 2000"
    and far: "\<not> calculateDistance (cs ! findClosestPointIndex cs t) t \<le> 3"
  shows "findNearbyIndices cs t 3 = []"
proof -
  have all: "\<not> calculateDistance (cs ! k) t \<le> 3" if k: "k < length cs" for k
  proof (cases "\<exists>k0 < length cs. calculateDistance (cs ! k0) t < MAX_VALUE")
    case True
    then obtain k0 where "k0 < length cs" "calculateDistance (cs ! k0) t < MAX_VALUE" by blast
    from findClosestPointIndex_small [OF assms(2) this k] far show ?thesis by linarith
  next
    case False
    then have "MAX_VALUE \<le> calculateDistance (cs ! k) t" using k by auto
    then show ?thesis using MAX_VALUE_large by linarith
  qed
  have "filter (\<lambda>(index, distance). distance \<le> 3)
          (map (\<lambda>i. (i, calculateDistance (cs ! i) t)) [0..<length cs]) = []"
    using all by (auto simp: filter_empty_conv)
  then show ?thesis by (simp add: findNearbyIndices_def)
qed

lemma approach2_never_after_failed_tolerance:
  assumes "cs \<noteq> []" and "length cs < 2000"
    and "\<not> (calculateDistance (cs ! findClosestPointIndex cs s) s \<le> 3
            \<and> calculateDistance (cs ! findClosestPointIndex cs e) e \<le> 3)"
  shows "bestCombination v cs s e 3 = None"
proof -
  from assms(3) have "findNearbyIndices cs s 3 = [] \<or> findNearbyIndices cs e 3 = []"
    using far_target_no_nearby [OF assms(1,2)] by blast
  then show ?thesis by (auto simp: bestCombination_def Let_def)
qed

lemma loopTrack_nearest:
  "findClosestPointIndex [(0, 0), (6, 0), (1, 0), (2, 0)] (0, 0) = 0"
  "findClosestPointIndex [(0, 0), (6, 0), (1, 0), (2, 0)] (1, 0) = 2"
  by (simp_all add: eval_search)

lemma loopTrack_nearby:
  "findNearbyIndices [(0, 0), (6, 0), (1, 0), (2, 0)] (0, 0) 3 = [(0, 0), (2, 1), (3, 2)]"
  "findNearbyIndices [(0, 0), (6, 0), (1, 0), (2, 0)] (1, 0) 3 = [(2, 0), (0, 1), (3, 1)]"
  by (simp_all add: findNearbyIndices_def upt_conv_Cons)

text \<open>
  Claim C1, evaluated. The track goes from the start target out to \<open>(6, 0)\<close> and back
  to the end target \<open>(1, 0)\<close>, then on to \<open>(2, 0)\<close>. Both nearest points are at
  distance 0, the direct candidate has winding ratio 11 and is rejected, and the
  matcher returns no match at once, although the loops of approach 2, run on the same
  input, accept the two-point candidate between indices 2 and 3.
\<close>

theorem rejected_direct_match_returns_null:
  "calculateDistance ([(0, 0), (6, 0), (1, 0), (2, 0)]
       ! findClosestPointIndex [(0, 0), (6, 0), (1, 0), (2, 0)] (0, 0)) (0, 0) \<le> 3
   \<and> calculateDistance ([(0, 0), (6, 0), (1, 0), (2, 0)]
       ! findClosestPointIndex [(0, 0), (6, 0), (1, 0), (2, 0)] (1, 0)) (1, 0) \<le> 3
   \<and> extractGpsTrackBetweenPoints v [(0, 0), (6, 0), (1, 0), (2, 0)]
        (findClosestPointIndex [(0, 0), (6, 0), (1, 0), (2, 0)] (0, 0))
        (findClosestPointIndex [(0, 0), (6, 0), (1, 0), (2, 0)] (1, 0)) (0, 0) (1, 0) = None
   \<and> bestCombination v [(0, 0), (6, 0), (1, 0), (2, 0)] (0, 0) (1, 0) 3
        = Some (case v of Part000 \<Rightarrow> [(0, 0), (1, 0)] | MainJs \<Rightarrow> [(1, 0), (2, 0)])
   \<and> findGpxSegmentForCoordinates v g [(0, 0), (6, 0), (1, 0), (2, 0)] (0, 0) (1, 0) = Inr None"
proof -
  have x: "extractGpsTrackBetweenPoints v [(0, 0), (6, 0), (1, 0), (2, 0)] 0 2 (0, 0) (1, 0) = None"
    by (cases v) (simp_all add: eval_extract)
  have b: "bestCombination v [(0, 0), (6, 0), (1, 0), (2, 0)] (0, 0) (1, 0) 3
        = Some (case v of Part000 \<Rightarrow> [(0, 0), (1, 0)] | MainJs \<Rightarrow> [(1, 0), (2, 0)])"
    by (cases v)
       (simp_all add: bestCombination_def loopTrack_nearby combineStep_def eval_extract
          below_MAX_VALUE)
  have f: "findGpxSegmentForCoordinates v g [(0, 0), (6, 0), (1, 0), (2, 0)] (0, 0) (1, 0)
           = Inr None"
    by (simp add: findGpxSegmentForCoordinates_def loopTrack_nearest x Let_def)
  show ?thesis using x b f by (simp add: loopTrack_nearest)
qed

section \<open>The assembler\<close>

lemma buildSegmentObject_sel [simp]:
  "seg_id (buildSegmentObject v rd i cs a b) = i + 1"
  "seg_name (buildSegmentObject v rd i cs a b) = rd_name rd"
  "coordinates (buildSegmentObject v rd i cs a b) = cs"
  "startCoords (buildSegmentObject v rd i cs a b) = a"
  "endCoords (buildSegmentObject v rd i cs a b) = b"
  by (simp_all add: buildSegmentObject_def)

lemma interpolatedSegment_sel [simp]:
  "seg_id (interpolatedSegment v rd i) = i + 1"
  "seg_name (interpolatedSegment v rd i) = rd_name rd"
  "coordinates (interpolatedSegment v rd i)
     = createInterpolatedPath (start_coords rd) (finish_coords rd)"
  "startCoords (interpolatedSegment v rd i) = start_coords rd"
  "endCoords (interpolatedSegment v rd i) = finish_coords rd"
  by (simp_all add: interpolatedSegment_def Let_def)

lemma interpolateAll_segments:
  "length (coloradoTrailSegments (interpolateAll v rds)) = length rds"
  "i < length rds \<Longrightarrow>
     coloradoTrailSegments (interpolateAll v rds) ! i = interpolatedSegment v (rds ! i) i"
  "report (interpolateAll v rds) = None"
  by (simp_all add: interpolateAll_def nth_enumerate_eq)

text \<open>In \<open>main.js\<close>, a segment whose mapped track has fewer than two points gets the
  interpolated path.\<close>

lemma orderedStep_fallback:
  assumes "\<forall>t \<in> set (tracks parser). length (trk_points t) < 2"
  shows "orderedStep parser (segs, m, n) (i, rd)
           = (segs @ [interpolatedSegment MainJs rd i], m, n + 1)"
proof -
  have "\<not> 2 \<le> length (trk_points (tracks parser ! k))" if "k < length (tracks parser)" for k
    using assms that by (simp add: not_le)
  then show ?thesis
    by (simp add: orderedStep_def Let_def split: option.splits)
qed

lemma foldl_orderedStep_fallback:
  assumes "\<forall>t \<in> set (tracks parser). length (trk_points t) < 2"
  shows "foldl (orderedStep parser) (segs, m, n) (enumerate i rds)
           = (segs @ map (\<lambda>(k, rd). interpolatedSegment MainJs rd k) (enumerate i rds),
              m, n + length rds)"
proof (induction rds arbitrary: segs n i)
  case Nil
  then show ?case by simp
next
  case (Cons rd rds)
  show ?case
    by (simp add: orderedStep_fallback [OF assms] Cons.IH)
qed

lemma coveragePercent_zero:
  "coveragePercent 0 n = (if n = 0 then NaN else Fin 0)"
  by (simp add: coveragePercent_def js_div_def)

text \<open>
  Claim C6, as the code has it. When the GPX data is unavailable or empty (in
  \<open>part_000\<close>: no parser or an empty \<open>gpxTrailPoints\<close>; in \<open>main.js\<close>: no parser, or
  a parser none of whose tracks has a point) \<open>processSegmentData\<close> does not throw and
  produces one segment per entry of \<open>routeData\<close>, in order, each with the interpolated
  path of 11 points between the entry's own coordinates. The branch for a missing
  parser (and, in \<open>part_000\<close>, for an empty point list) returns before any counter
  exists and reports nothing; in \<open>main.js\<close> with a parser whose tracks are empty the
  counters are 0 matched and all interpolated, and the coverage is 0 for a non-empty
  \<open>routeData\<close> (the division 0 / 0 gives NaN for an empty one).
\<close>

theorem no_gps_all_interpolated:
  assumes "(v = Part000 \<and> (trailGpxParser g = None \<or> gpxTrailPoints g = []))
         \<or> (v = MainJs \<and> (trailGpxParser g = None
               \<or> (\<exists>parser. trailGpxParser g = Some parser
                     \<and> (\<forall>t \<in> set (tracks parser). trk_points t = []))))"
  shows "\<exists>out. processSegmentData v g routeData = Inr out
           \<and> length (coloradoTrailSegments out) = length routeData
           \<and> (\<forall>i < length routeData.
                 coloradoTrailSegments out ! i = interpolatedSegment v (routeData ! i) i
                 \<and> coordinates (coloradoTrailSegments out ! i)
                     = createInterpolatedPath (start_coords (routeData ! i))
                         (finish_coords (routeData ! i))
                 \<and> length (coordinates (coloradoTrailSegments out ! i)) = 11)
           \<and> report out =
                (if v = Part000 \<or> trailGpxParser g = None then None
                 else Some \<lparr>gpxMatchCount = 0, interpolatedCount = length routeData,
                            coverage = (if routeData = [] then NaN else Fin 0)\<rparr>)"
proof -
  have eleven: "length (createInterpolatedPath a b) = 11" for a b
    by (simp add: createInterpolatedPath_length steps_def)
  have early: ?thesis if out: "processSegmentData v g routeData = Inr (interpolateAll v routeData)"
    and rep: "v = Part000 \<or> trailGpxParser g = None"
    using rep by (simp add: out interpolateAll_segments eleven)
  show ?thesis
  proof (cases "trailGpxParser g = None \<or> (v = Part000 \<and> gpxTrailPoints g = [])")
    case True
    then have "processSegmentData v g routeData = Inr (interpolateAll v routeData)"
      by (cases v) (auto simp: processSegmentData_def)
    moreover have "v = Part000 \<or> trailGpxParser g = None" using True by auto
    ultimately show ?thesis by (rule early)
  next
    case False
    with assms obtain parser where v: "v = MainJs" and parser: "trailGpxParser g = Some parser"
      and empty: "\<forall>t \<in> set (tracks parser). trk_points t = []"
      by blast
    from empty have short: "\<forall>t \<in> set (tracks parser). length (trk_points t) < 2" by simp
    define segs where
      "segs = map (\<lambda>(k, rd). interpolatedSegment MainJs rd k) (enumerate 0 routeData)"
    have out: "processSegmentData v g routeData
       = Inr \<lparr>coloradoTrailSegments = segs,
              report = Some \<lparr>gpxMatchCount = 0, interpolatedCount = length routeData,
                             coverage = coveragePercent 0 (length routeData)\<rparr>\<rparr>"
      by (simp add: processSegmentData_def v parser foldl_orderedStep_fallback [OF short]
          finish_def segs_def)
    have nth: "segs ! i = interpolatedSegment MainJs (routeData ! i) i" if "i < length routeData" for i
      using that by (simp add: segs_def nth_enumerate_eq)
    have len: "length segs = length routeData" by (simp add: segs_def)
    let ?out = "\<lparr>coloradoTrailSegments = segs,
              report = Some \<lparr>gpxMatchCount = 0, interpolatedCount = length routeData,
                             coverage = coveragePercent 0 (length routeData)\<rparr>\<rparr>"
    have "processSegmentData v g routeData = Inr ?out
           \<and> length (coloradoTrailSegments ?out) = length routeData
           \<and> (\<forall>i < length routeData.
                 coloradoTrailSegments ?out ! i = interpolatedSegment v (routeData ! i) i
                 \<and> coordinates (coloradoTrailSegments ?out ! i)
                     = createInterpolatedPath (start_coords (routeData ! i))
                         (finish_coords (routeData ! i))
                 \<and> length (coordinates (coloradoTrailSegments ?out ! i)) = 11)
           \<and> report ?out =
                (if v = Part000 \<or> trailGpxParser g = None then None
                 else Some \<lparr>gpxMatchCount = 0, interpolatedCount = length routeData,
                            coverage = (if routeData = [] then NaN else Fin 0)\<rparr>)"
      using nth len out by (simp add: v parser coveragePercent_zero eleven)
    then show ?thesis by (rule exI)
  qed
qed

theorem no_gps_all_interpolated_witness:
  "((MainJs = Part000 \<and> (trailGpxParser \<lparr>trailGpxParser = Some \<lparr>tracks = []\<rparr>, gpxTrailPoints = []\<rparr> = None
        \<or> gpxTrailPoints \<lparr>trailGpxParser = Some \<lparr>tracks = []\<rparr>, gpxTrailPoints = []\<rparr> = []))
     \<or> (MainJs = MainJs
        \<and> (trailGpxParser \<lparr>trailGpxParser = Some \<lparr>tracks = []\<rparr>, gpxTrailPoints = []\<rparr> = None
           \<or> (\<exists>parser. trailGpxParser \<lparr>trailGpxParser = Some \<lparr>tracks = []\<rparr>, gpxTrailPoints = []\<rparr>
                          = Some parser
                 \<and> (\<forall>t \<in> set (tracks parser). trk_points t = [])))))
   \<and> map_sum id (length \<circ> coloradoTrailSegments)
        (processSegmentData MainJs \<lparr>trailGpxParser = Some \<lparr>tracks = []\<rparr>, gpxTrailPoints = []\<rparr>
           (replicate 3 
             \<lparr>rd_name = ''Waterton Canyon'', rd_start_location = ''A'', rd_finish_location = ''B'',
        rd_distance = 16, rd_notes = [], start_coords = (0, 0), finish_coords = (1, 0)\<rparr>)) = Inr 3
   \<and> map_sum id report
        (processSegmentData MainJs \<lparr>trailGpxParser = Some \<lparr>tracks = []\<rparr>, gpxTrailPoints = []\<rparr>
           (replicate 3 
             \<lparr>rd_name = ''Waterton Canyon'', rd_start_location = ''A'', rd_finish_location = ''B'',
        rd_distance = 16, rd_notes = [], start_coords = (0, 0), finish_coords = (1, 0)\<rparr>))
      = Inr (Some \<lparr>gpxMatchCount = 0, interpolatedCount = 3, coverage = Fin 0\<rparr>)"
proof -
  define g where "g = \<lparr>trailGpxParser = Some \<lparr>tracks = []\<rparr>, gpxTrailPoints = []\<rparr>"
  have hyp: "(MainJs = Part000 \<and> (trailGpxParser g = None \<or> gpxTrailPoints g = []))
     \<or> (MainJs = MainJs
        \<and> (trailGpxParser g = None
           \<or> (\<exists>parser. trailGpxParser g = Some parser
                 \<and> (\<forall>t \<in> set (tracks parser). trk_points t = []))))"
    by (simp add: g_def)
  from no_gps_all_interpolated [OF hyp, of "replicate 3 
             \<lparr>rd_name = ''Waterton Canyon'', rd_start_location = ''A'', rd_finish_location = ''B'',
        rd_distance = 16, rd_notes = [], start_coords = (0, 0), finish_coords = (1, 0)\<rparr>"]
  obtain out where "processSegmentData MainJs g (replicate 3 
             \<lparr>rd_name = ''Waterton Canyon'', rd_start_location = ''A'', rd_finish_location = ''B'',
        rd_distance = 16, rd_notes = [], start_coords = (0, 0), finish_coords = (1, 0)\<rparr>) = Inr out"
    "length (coloradoTrailSegments out) = 3"
    "report out = Some \<lparr>gpxMatchCount = 0, interpolatedCount = 3, coverage = Fin 0\<rparr>"
    by (auto simp: g_def)
  with hyp show ?thesis unfolding g_def by simp
qed

text \<open>Without a parser the function returns from its first branch: three segments,
  and no counters.\<close>

theorem no_gps_no_report:
  "map_sum id (length \<circ> coloradoTrailSegments)
     (processSegmentData Part000 \<lparr>trailGpxParser = None, gpxTrailPoints = []\<rparr>
        (replicate 3 
             \<lparr>rd_name = ''Waterton Canyon'', rd_start_location = ''A'', rd_finish_location = ''B'',
        rd_distance = 16, rd_notes = [], start_coords = (0, 0), finish_coords = (1, 0)\<rparr>)) = Inr 3
   \<and> map_sum id report
       (processSegmentData Part000 \<lparr>trailGpxParser = None, gpxTrailPoints = []\<rparr>
          (replicate 3 
             \<lparr>rd_name = ''Waterton Canyon'', rd_start_location = ''A'', rd_finish_location = ''B'',
        rd_distance = 16, rd_notes = [], start_coords = (0, 0), finish_coords = (1, 0)\<rparr>)) = Inr None
   \<and> map_sum id report
       (processSegmentData MainJs \<lparr>trailGpxParser = None, gpxTrailPoints = []\<rparr>
          (replicate 3 
             \<lparr>rd_name = ''Waterton Canyon'', rd_start_location = ''A'', rd_finish_location = ''B'',
        rd_distance = 16, rd_notes = [], start_coords = (0, 0), finish_coords = (1, 0)\<rparr>)) = Inr None"
  by (simp add: processSegmentData_def interpolateAll_def)

section \<open>One segment per entry, in order\<close>

lemma findSegmentByDistance_no_throw:
  assumes "trk_distance track = Some d"
  shows "\<exists>r. findSegmentByDistance v track s e = Inr r"
  using assms by (simp add: findSegmentByDistance_def Let_def split: option.splits)

lemma findGpxSegmentForCoordinates_no_throw:
  assumes "cs \<noteq> []" and "firstTrack g = Inr track"
  shows "\<exists>r. findGpxSegmentForCoordinates v g cs s e = Inr r"
proof -
  have "\<exists>r. distanceApproach v g s e = Inr r"
    using assms(2) findSegmentByDistance_no_throw [of track _ v s e]
    by (auto simp: distanceApproach_def split: option.splits)
  then show ?thesis
    using assms(1)
    by (auto simp: findGpxSegmentForCoordinates_def Let_def split: option.splits)
qed

text \<open>Every iteration of either loop appends exactly one object, built from the
  current entry with identifier \<open>i + 1\<close>, and increments exactly one of the two
  counters.\<close>

lemma matchLoop_step:
  assumes "matchLoop g cs (rd # rds) i (segs, m, n) = Inr st'"
  shows "\<exists>x m1 n1. matchLoop g cs rds (Suc i) (segs @ [x], m1, n1) = Inr st'
           \<and> seg_name x = rd_name rd \<and> seg_id x = i + 1
           \<and> ((m1 = m + 1 \<and> n1 = n) \<or> (m1 = m \<and> n1 = n + 1))"
proof -
  from assms obtain r where
    r: "findGpxSegmentForCoordinates Part000 g cs (start_coords rd) (finish_coords rd) = Inr r"
    by (auto simp: Let_def split: sum.splits)
  show ?thesis
  proof (cases "\<exists>p. r = Some p \<and> 2 \<le> length p")
    case True
    then obtain p where p: "r = Some p" "2 \<le> length p" by blast
    define x where "x = buildSegmentObject Part000 rd i p (p ! 0) (p ! (length p - 1))"
    from assms have "matchLoop g cs rds (Suc i) (segs @ [x], m + 1, n) = Inr st'"
      by (simp add: r p Let_def x_def)
    moreover have "seg_name x = rd_name rd" "seg_id x = i + 1" by (simp_all add: x_def)
    ultimately show ?thesis by blast
  next
    case False
    define x where "x = interpolatedSegment Part000 rd i"
    from assms False have "matchLoop g cs rds (Suc i) (segs @ [x], m, n + 1) = Inr st'"
      by (auto simp: r Let_def x_def split: option.splits)
    moreover have "seg_name x = rd_name rd" "seg_id x = i + 1" by (simp_all add: x_def)
    ultimately show ?thesis by blast
  qed
qed

lemma orderedStep_step:
  "\<exists>x m1 n1. orderedStep parser (segs, m, n) (i, rd) = (segs @ [x], m1, n1)
     \<and> seg_name x = rd_name rd \<and> seg_id x = i + 1
     \<and> ((m1 = m + 1 \<and> n1 = n) \<or> (m1 = m \<and> n1 = n + 1))"
  by (simp add: orderedStep_def Let_def split: option.splits)

lemma upt_shift: "[k..<Suc (k + n)] = k # [Suc k..<Suc (k + n)]"
  by (subst upt_rec) simp

lemma matchLoop_inv:
  assumes "matchLoop g cs rds i (segs, m, n) = Inr (segs', m', n')"
  shows "length segs' = length segs + length rds
       \<and> m' + n' = m + n + length rds
       \<and> map seg_name segs' = map seg_name segs @ map rd_name rds
       \<and> map seg_id segs' = map seg_id segs @ map Suc [i..<i + length rds]"
  using assms
proof (induction rds arbitrary: i segs m n)
  case Nil
  then show ?case by simp
next
  case (Cons rd rds)
  from matchLoop_step [OF Cons.prems] obtain x m1 n1 where
    rec: "matchLoop g cs rds (Suc i) (segs @ [x], m1, n1) = Inr (segs', m', n')"
    and x: "seg_name x = rd_name rd" "seg_id x = i + 1"
    and cnt: "(m1 = m + 1 \<and> n1 = n) \<or> (m1 = m \<and> n1 = n + 1)"
    by blast
  from Cons.IH [OF rec] x cnt show ?case
    by (auto simp add: upt_shift simp del: upt_Suc)
qed

lemma foldl_orderedStep_inv:
  assumes "foldl (orderedStep parser) (segs, m, n) (enumerate i rds) = (segs', m', n')"
  shows "length segs' = length segs + length rds
       \<and> m' + n' = m + n + length rds
       \<and> map seg_name segs' = map seg_name segs @ map rd_name rds
       \<and> map seg_id segs' = map seg_id segs @ map Suc [i..<i + length rds]"
  using assms
proof (induction rds arbitrary: i segs m n)
  case Nil
  then show ?case by simp
next
  case (Cons rd rds)
  from orderedStep_step [of parser segs m n i rd] obtain x m1 n1 where
    st: "orderedStep parser (segs, m, n) (i, rd) = (segs @ [x], m1, n1)"
    and x: "seg_name x = rd_name rd" "seg_id x = i + 1"
    and cnt: "(m1 = m + 1 \<and> n1 = n) \<or> (m1 = m \<and> n1 = n + 1)"
    by blast
  from Cons.prems have
    rec: "foldl (orderedStep parser) (segs @ [x], m1, n1) (enumerate (Suc i) rds) = (segs', m', n')"
    by (simp add: st)
  from Cons.IH [OF rec] x cnt show ?case
    by (auto simp add: upt_shift simp del: upt_Suc)
qed

lemma finish_shape:
  assumes "length segs' = length rds" and "m' + n' = length rds"
  shows "coloradoTrailSegments (finish (segs', m', n')) = segs'
       \<and> (\<exists>r. report (finish (segs', m', n')) = Some r
              \<and> gpxMatchCount r + interpolatedCount r = length rds
              \<and> coverage r = coveragePercent (gpxMatchCount r) (length rds))"
  using assms by (simp add: finish_def)

text \<open>
  Whenever \<open>processSegmentData\<close> returns, the new \<open>coloradoTrailSegments\<close> has one
  object per entry of \<open>routeData\<close>, with the entries' names in the input order and
  the identifiers \<open>1, 2, ...\<close>; and where counters are reported, the two counts add up
  to the number of entries and the coverage is \<open>(gpxMatchCount / length) * 100\<close>.
\<close>

lemma processSegmentData_shape:
  assumes "processSegmentData v g routeData = Inr out"
  shows "length (coloradoTrailSegments out) = length routeData
       \<and> map seg_name (coloradoTrailSegments out) = map rd_name routeData
       \<and> map seg_id (coloradoTrailSegments out) = map Suc [0..<length routeData]
       \<and> (\<forall>r. report out = Some r \<longrightarrow>
             gpxMatchCount r + interpolatedCount r = length routeData
             \<and> coverage r = coveragePercent (gpxMatchCount r) (length routeData))"
proof -
  have early: ?thesis if "out = interpolateAll v routeData"
  proof -
    have "map seg_name (map (\<lambda>(index, segment). interpolatedSegment v segment index)
             (enumerate k routeData)) = map rd_name routeData
        \<and> map seg_id (map (\<lambda>(index, segment). interpolatedSegment v segment index)
             (enumerate k routeData)) = map Suc [k..<k + length routeData]" for k
      by (induction routeData arbitrary: k) (simp_all add: upt_shift del: upt_Suc)
    from this [of 0] show ?thesis by (simp add: that interpolateAll_def)
  qed
  have looped: ?thesis
    if "out = finish (segs', m', n')"
      and inv: "length segs' = length ([] :: segment list) + length routeData
       \<and> m' + n' = 0 + 0 + length routeData
       \<and> map seg_name segs' = map seg_name ([] :: segment list) @ map rd_name routeData
       \<and> map seg_id segs' = map seg_id ([] :: segment list) @ map Suc [0..<0 + length routeData]"
    for segs' m' n'
    using inv finish_shape [of segs' routeData m' n'] by (auto simp: that(1))
  show ?thesis
  proof (cases v)
    case Part000
    show ?thesis
    proof (cases "trailGpxParser g = None \<or> gpxTrailPoints g = []")
      case True
      then have "out = interpolateAll v routeData"
        using assms by (simp add: processSegmentData_def Part000)
      then show ?thesis by (rule early)
    next
      case False
      with assms obtain track :: gpx_track and segs' m' n' where
        ml: "matchLoop g (trk_points track) routeData 0 ([], 0, 0) = Inr (segs', m', n')"
        and out: "out = finish (segs', m', n')"
        by (auto simp: processSegmentData_def Part000 Let_def split: sum.splits if_splits)
      from looped [OF out matchLoop_inv [OF ml]] show ?thesis .
    qed
  next
    case MainJs
    show ?thesis
    proof (cases "trailGpxParser g")
      case None
      then have "out = interpolateAll v routeData"
        using assms by (simp add: processSegmentData_def MainJs)
      then show ?thesis by (rule early)
    next
      case (Some parser)
      obtain segs' m' n' where
        fl: "foldl (orderedStep parser) ([], 0, 0) (enumerate 0 routeData) = (segs', m', n')"
        by (cases "foldl (orderedStep parser) ([], 0, 0) (enumerate 0 routeData)") auto
      have out: "out = finish (segs', m', n')"
        using assms by (simp add: processSegmentData_def MainJs Some fl)
      from looped [OF out foldl_orderedStep_inv [OF fl]] show ?thesis .
    qed
  qed
qed

text \<open>When it returns: \<open>main.js\<close> always; \<open>part_000\<close> with GPX data whenever the
  first track has points and distance data and \<open>routeData\<close> is not empty.\<close>

lemma matchLoop_returns:
  assumes "cs \<noteq> []" and "firstTrack g = Inr track"
  shows "\<exists>st'. matchLoop g cs rds i (segs, m, n) = Inr st'"
proof (induction rds arbitrary: i segs m n)
  case Nil
  then show ?case by simp
next
  case (Cons rd rds)
  from findGpxSegmentForCoordinates_no_throw [OF assms]
  obtain r where r: "findGpxSegmentForCoordinates Part000 g cs
                       (start_coords rd) (finish_coords rd) = Inr r"
    by blast
  show ?case
    using Cons.IH by (simp add: r Let_def split: option.splits)
qed

lemma processSegmentData_returns:
  "\<exists>out. processSegmentData MainJs g routeData = Inr out"
  "firstTrack g = Inr track \<Longrightarrow> trk_distance track = Some d \<Longrightarrow> trk_points track \<noteq> [] \<Longrightarrow>
   routeData \<noteq> [] \<Longrightarrow> \<exists>out. processSegmentData Part000 g routeData = Inr out"
proof -
  show "\<exists>out. processSegmentData MainJs g routeData = Inr out"
    by (simp add: processSegmentData_def split: option.splits)
  assume a: "firstTrack g = Inr track" "trk_distance track = Some d" "trk_points track \<noteq> []"
    "routeData \<noteq> []"
  from matchLoop_returns [OF a(3) a(1)]
  obtain st' where "matchLoop g (trk_points track) routeData 0 ([], 0, 0) = Inr st'"
    by blast
  then show "\<exists>out. processSegmentData Part000 g routeData = Inr out"
    using a by (simp add: processSegmentData_def Let_def)
qed

text \<open>
  Claim C7, evaluated on an empty \<open>routeData\<close> with a loaded track. Before its loop
  \<open>part_000\<close> logs \<open>routeData[0].name\<close>, which throws on the empty list; \<open>main.js\<close>
  has no such statement and returns the empty list of segments with both counters 0
  (and the coverage 0 / 0).
\<close>

theorem empty_route_throws_in_part_000:
  "processSegmentData Part000
     \<lparr>trailGpxParser = Some \<lparr>tracks =
        [\<lparr>trk_name = Some ''01 Waterton Canyon'', trk_points = [(0, 0), (4, 0), (8, 0)],
          trk_distance = Some \<lparr>distance_total = 889000,
                                distance_cumul = Some [0, 444500, 889000]\<rparr>\<rparr>]\<rparr>,
      gpxTrailPoints = [(0, 0), (4, 0), (8, 0)]\<rparr> []
   = Inl TypeError
   \<and> processSegmentData MainJs
     \<lparr>trailGpxParser = Some \<lparr>tracks =
        [\<lparr>trk_name = Some ''01 Waterton Canyon'', trk_points = [(0, 0), (4, 0), (8, 0)],
          trk_distance = Some \<lparr>distance_total = 889000,
                                distance_cumul = Some [0, 444500, 889000]\<rparr>\<rparr>]\<rparr>,
      gpxTrailPoints = [(0, 0), (4, 0), (8, 0)]\<rparr> []
   = Inr \<lparr>coloradoTrailSegments = [],
          report = Some \<lparr>gpxMatchCount = 0, interpolatedCount = 0, coverage = NaN\<rparr>\<rparr>"
  by (simp add: processSegmentData_def firstTrack_def finish_def coveragePercent_def js_div_def)

end
